theory Spec2Isabelle
  imports Main "HOL-Library.Signed_Division" "HOL-Library.Sublist" "HOL-Library.Log_Nat"
begin

section \<open>Form library (app/form)\<close>

text \<open>
  Modelled from the spec: the enum \<open>MessageType\<close> of the form library, which is not among
  the sources; the spec speaks of user-facing form messages, the code of messages of type
  ERROR and of warnings.
\<close>

datatype MessageType = TEXT | WARNING | ERROR

text \<open>
  Modelled from the spec: the enum \<open>FormStatus\<close> of the form library, with the three
  members the migration form uses.
\<close>

datatype FormStatus = ACTIVE | LOCKED | PROCESSING

text \<open>
  Modelled from the spec: the form library (\<open>FormValue\<close>, \<open>withError\<close>, \<open>withWarning\<close>,
  \<open>clearMessage\<close>, \<open>mergeValues\<close>, \<open>isValidForm\<close>) is imported from \<open>../form\<close>, which is
  not among the sources. The spec says that errors are surfaced as user-facing form
  messages: an input is a value with an optional message and message type, \<open>withError\<close>
  and \<open>withWarning\<close> attach a message of that type, \<open>clearMessage\<close> removes it, a form is
  valid when no input carries an error, and \<open>mergeValues\<close> spreads the keys of each changed
  input over the stored one. The key \<open>value\<close> of an input is the field \<open>val\<close>, \<open>value\<close>
  being a keyword; an absent or undefined message is \<open>None\<close>.
\<close>

record 'a FormValue =
  val :: 'a
  message :: "string option"
  messageType :: "MessageType option"

text \<open>
  An input inside a set of changes: the literal \<open>{ value: v }\<close>, which has no message keys
  and so leaves the stored message alone, or an object that has all three keys.
\<close>

datatype 'a InputChange = ValueKey 'a | AllKeys "'a FormValue"

text \<open>
  Modelled from the spec: the object literal \<open>{ value: v }\<close> read as an input, which has
  no message.
\<close>

definition literal :: "'a \<Rightarrow> 'a FormValue" where
  "literal v = \<lparr>val = v, message = None, messageType = None\<rparr>"

text \<open>
  Modelled from the spec: \<open>withError\<close>, \<open>withWarning\<close> and \<open>clearMessage\<close> of the form
  library return the input with an error message, with a warning, and with no message.
\<close>

definition withError :: "'a FormValue \<Rightarrow> string \<Rightarrow> 'a FormValue" where
  "withError input m = input\<lparr>message := Some m, messageType := Some ERROR\<rparr>"

definition withWarning :: "'a FormValue \<Rightarrow> string \<Rightarrow> 'a FormValue" where
  "withWarning input m = input\<lparr>message := Some m, messageType := Some WARNING\<rparr>"

definition clearMessage :: "'a FormValue \<Rightarrow> 'a FormValue" where
  "clearMessage input = input\<lparr>message := None, messageType := None\<rparr>"

text \<open>
  Modelled from the spec: what \<open>mergeValues\<close> of the form library does to one input, the
  keys of the change spread over the stored input.
\<close>

definition mergeInput :: "'a FormValue \<Rightarrow> 'a InputChange \<Rightarrow> 'a FormValue" where
  "mergeInput input change =
     (case change of ValueKey v \<Rightarrow> input\<lparr>val := v\<rparr> | AllKeys new \<Rightarrow> new)"

section \<open>Euler redemption bridge data (euler-redemption-bridge-data.ts)\<close>

text \<open>
  What a method of the adapter can throw: \<open>new Error(msg)\<close>, the \<open>TypeError\<close> of a bigint
  operation on a value that is not a bigint, and the rejection of an awaited contract call.
\<close>

datatype exn = Error string | TypeError | Rejected

text \<open>
  \<open>AztecAsset\<close>: the fields the adapter reads. The field \<open>id\<close> is a JavaScript number that
  holds an integral asset id; it is called \<open>asset_id\<close> here because \<open>id\<close> is the identity of HOL.
\<close>

record AztecAsset =
  asset_id :: int
  erc20Address :: string

record UnderlyingAsset =
  address :: string
  name :: string
  symbol :: string
  decimals :: nat
  amount :: int

text \<open>
  The answers of the contracts \<open>getUnderlyingAmount\<close> calls, \<open>None\<close> for a rejected promise:
  \<open>EthAddress.fromString(await vault.asset())\<close>, \<open>tokenContract.name()\<close>,
  \<open>tokenContract.symbol()\<close> and \<open>tokenContract.decimals()\<close>.
\<close>

record Contracts =
  vault_asset :: "string option"
  token_name :: "string option"
  token_symbol :: "string option"
  token_decimals :: "nat option"

text \<open>
  The object literal \<open>minTokenOut\<close>; a property read with a key the object does not have
  gives \<open>undefined\<close>, which is \<open>None\<close>.
\<close>

definition minTokenOut :: "int \<Rightarrow> int option" where
  "minTokenOut k =
     (if k = 0 then Some (99 * 10 ^ 16)
      else if k = 1 then Some (96 * 10 ^ 16)
      else if k = 2 then Some (99 * 10 ^ 16)
      else if k = 5 then Some (99 * 10 ^ 16)
      else if k = 6 then Some (99 * 10 ^ 16)
      else if k = 7 then Some (96 * 10 ^ 16)
      else None)"

text \<open>
  \<open>a * b\<close> where \<open>a\<close> is a bigint and \<open>b\<close> was read from \<open>minTokenOut\<close>: JavaScript throws a
  TypeError when \<open>b\<close> is \<open>undefined\<close>.
\<close>

definition bigint_times :: "int \<Rightarrow> int option \<Rightarrow> exn + int" where
  "bigint_times a b = (case b of None \<Rightarrow> Inl TypeError | Some v \<Rightarrow> Inr (a * v))"

text \<open>
  \<open>a / b\<close> on bigints rounds towards zero, which is \<open>sdiv\<close>; the divisor in this file is
  the constant \<open>10n ** 18n\<close>, so the RangeError of a zero divisor cannot occur.
\<close>

definition getInteractionPresentValue :: "int \<Rightarrow> int \<Rightarrow> exn + (int \<times> int) list" where
  "getInteractionPresentValue interactionNonce inputValue = Inl (Error ''Method not implemented.'')"

definition getAuxData ::
  "AztecAsset \<Rightarrow> AztecAsset \<Rightarrow> AztecAsset \<Rightarrow> AztecAsset \<Rightarrow> int option list" where
  "getAuxData inputAssetA inputAssetB outputAssetA outputAssetB =
     [minTokenOut (asset_id outputAssetA)]"

definition getExpectedOutput ::
  "AztecAsset \<Rightarrow> AztecAsset \<Rightarrow> AztecAsset \<Rightarrow> AztecAsset \<Rightarrow> int \<Rightarrow> int \<Rightarrow> int list" where
  "getExpectedOutput inputAssetA inputAssetB outputAssetA outputAssetB auxData inputValue =
     [(inputValue * auxData) sdiv 10 ^ 18]"

definition getExpiration :: "int \<Rightarrow> exn + int" where
  "getExpiration interactionNonce = Inl (Error ''Method not implemented.'')"

definition hasFinalised :: "int \<Rightarrow> exn + bool" where
  "hasFinalised interactionNonce = Inl (Error ''Method not implemented.'')"

definition getInteractionAPR :: "int \<Rightarrow> exn + int list" where
  "getInteractionAPR interactionNonce = Inl (Error ''Method not implemented.'')"

definition getUnderlyingAmount :: "Contracts \<Rightarrow> AztecAsset \<Rightarrow> int \<Rightarrow> exn + UnderlyingAsset" where
  "getUnderlyingAmount c share amnt =
     (case vault_asset c of
        None \<Rightarrow> Inl Rejected
      | Some assetAddress \<Rightarrow>
          (case bigint_times amnt (minTokenOut (asset_id share)) of
             Inl e \<Rightarrow> Inl e
           | Inr p \<Rightarrow>
               (let underlyingAmount = p sdiv 10 ^ 18 in
                case token_name c of
                  None \<Rightarrow> Inl Rejected
                | Some n \<Rightarrow>
                    (case token_symbol c of
                       None \<Rightarrow> Inl Rejected
                     | Some s \<Rightarrow>
                         (case token_decimals c of
                            None \<Rightarrow> Inl Rejected
                          | Some d \<Rightarrow>
                              Inr \<lparr>address = assetAddress, name = n, symbol = s,
                                   decimals = d, amount = underlyingAmount\<rparr>)))))"

definition getTermAPR :: "AztecAsset \<Rightarrow> int \<Rightarrow> int \<Rightarrow> exn + int" where
  "getTermAPR underlying auxData inputValue = Inl (Error ''Method not implemented.'')"

definition getBorrowingFee :: "int \<Rightarrow> exn + int" where
  "getBorrowingFee borrowAmount = Inl (Error ''Method not implemented.'')"

definition getCurrentCR :: "unit \<Rightarrow> exn + int" where
  "getCurrentCR u = Inl (Error ''Method not implemented.'')"

definition getUserDebtAndCollateral :: "int \<Rightarrow> exn + (int \<times> int)" where
  "getUserDebtAndCollateral tbAmount = Inl (Error ''Method not implemented.'')"

definition getCustomMaxPrice :: "int \<Rightarrow> exn + int" where
  "getCustomMaxPrice slippage = Inl (Error ''Method not implemented.'')"

section \<open>Progress template (progress_template.tsx)\<close>

text \<open>
  \<open>ProgressStep\<close>. A status is a JavaScript number that holds the ordinal of an enum member,
  an integer. The fields are prefixed: \<open>status\<close> is also a field of the migration form, and
  \<open>text\<close> is a keyword of Isabelle.
\<close>

record ProgressStep =
  stepStatus :: int
  stepText :: string

text \<open>
  The props of \<open>ProgressTemplate\<close> its progress list depends on. \<open>formValid\<close> is the value of
  \<open>isValidForm(form)\<close>, a function of the form library; \<open>propMessage\<close> and
  \<open>propMessageType\<close> are the optional props \<open>message\<close> and \<open>messageType\<close>, \<open>None\<close> when
  undefined.
\<close>

record ProgressTemplateProps =
  steps :: "ProgressStep list"
  formValid :: bool
  currentStatus :: int
  confirmStatus :: int
  doneStatus :: int
  propMessage :: "string option"
  propMessageType :: "MessageType option"

text \<open>The props a \<open>TxProgress\<close> element is created with.\<close>

record TxProgressProps =
  txKey :: int
  txText :: string
  txDone :: bool
  txIsLoading :: bool
  txFailed :: bool
  txInactive :: bool

text \<open>\<open>!!message\<close>: an optional string is truthy when it is defined and not empty.\<close>

definition truthy :: "string option \<Rightarrow> bool" where
  "truthy m = (case m of None \<Rightarrow> False | Some s \<Rightarrow> s \<noteq> [])"

definition failed :: "ProgressTemplateProps \<Rightarrow> bool" where
  "failed p = (propMessageType p = Some ERROR \<and> truthy (propMessage p))"

definition success :: "ProgressTemplateProps \<Rightarrow> bool" where
  "success p = (currentStatus p = doneStatus p)"

definition expired :: "ProgressTemplateProps \<Rightarrow> bool" where
  "expired p = (currentStatus p = confirmStatus p \<and> \<not> formValid p)"

definition createProgress :: "ProgressTemplateProps \<Rightarrow> string \<Rightarrow> int \<Rightarrow> TxProgressProps" where
  "createProgress p txt st =
     \<lparr>txKey = st, txText = txt,
      txDone = (st < currentStatus p),
      txIsLoading = (st = currentStatus p \<and> \<not> failed p),
      txFailed = (st = currentStatus p \<and> failed p),
      txInactive = (st > currentStatus p)\<rparr>"

text \<open>
  The second block of the fragment ProgressTemplate returns: nothing when the form has
  succeeded or expired, the disclaimer at the confirm status, and otherwise one
  \<open>TxProgress\<close> for each step.
\<close>

datatype ProgressBlock = NoBlock | DisclaimerBlock | ProgressList "TxProgressProps list"

definition progressBlock :: "ProgressTemplateProps \<Rightarrow> ProgressBlock" where
  "progressBlock p =
     (if \<not> success p \<and> \<not> expired p
      then (if currentStatus p = confirmStatus p then DisclaimerBlock
            else ProgressList (map (\<lambda>s. createProgress p (stepText s) (stepStatus s)) (steps p)))
      else NoBlock)"

text \<open>How many of the four flags of a \<open>TxProgress\<close> are true.\<close>

definition flagCount :: "TxProgressProps \<Rightarrow> nat" where
  "flagCount t = length (filter (\<lambda>b. b) [txDone t, txIsLoading t, txFailed t, txInactive t])"

section \<open>Migration form (migrate_form.ts)\<close>

text \<open>
  The class \<open>MigrateForm\<close> as a state machine. A method takes the form and gives the form
  it leaves, together with how it ended when it can throw. The wallet SDK, the key vault,
  the account utilities and the database are outside the repository: their answers are an
  argument of each method (\<open>Sdk\<close> below), and the calls that resolved are appended to the
  field \<open>effects\<close> of the form. A method runs from its call to its end with no other method
  in between; the events the form emits are not modelled.
\<close>

type_synonym AppAssetId = nat

text \<open>\<open>MigratingAsset\<close>; its field \<open>values\<close> is called \<open>noteValues\<close>, \<open>values\<close> being a keyword.\<close>

record MigratingAsset =
  assetId :: AppAssetId
  fee :: int
  totalFee :: int
  noteValues :: "int list"
  migratableValues :: "int list"
  migratedValues :: "int list"

text \<open>
  \<open>getMigratableValues\<close>: the loop over \<open>i = 0, 2, 4, ...\<close>, with \<open>vs\<close> for \<open>values\<close>,
  \<open>f\<close> for \<open>fee\<close>, \<open>pair\<close> for \<open>noteValues\<close> and \<open>acc\<close> for the array \<open>migratableValues\<close>
  being built; \<open>values.slice(i, i + 2)\<close> is \<open>take 2 (drop i vs)\<close> and \<open>reduce\<close> is \<open>foldl\<close>.
\<close>

function getMigratableValues_loop :: "int list \<Rightarrow> int \<Rightarrow> nat \<Rightarrow> int list \<Rightarrow> int list" where
  "getMigratableValues_loop vs f i acc =
     (if i < length vs
      then (let pair = take 2 (drop i vs);
                amount = foldl (\<lambda>sum v. sum + v) 0 pair
            in getMigratableValues_loop vs f (i + 2) (if amount > f then acc @ pair else acc))
      else acc)"
  by pat_completeness auto
termination
  by (relation "measure (\<lambda>(vs, f, i, acc). length vs - i)") auto

declare getMigratableValues_loop.simps [simp del]

definition getMigratableValues :: "int list \<Rightarrow> int \<Rightarrow> int list" where
  "getMigratableValues vs f = getMigratableValues_loop vs f 0 []"

datatype MigrateStatus = CONNECT | SYNC | CONFIRM | VALIDATE | MIGRATE | DONE

text \<open>The ordinal of a member of the enum, which is the order the statuses are declared in.\<close>

fun ordinal :: "MigrateStatus \<Rightarrow> nat" where
  "ordinal CONNECT = 0"
| "ordinal SYNC = 1"
| "ordinal CONFIRM = 2"
| "ordinal VALIDATE = 3"
| "ordinal MIGRATE = 4"
| "ordinal DONE = 5"

text \<open>\<open>MigrateFormValues\<close>; \<open>status\<close> is an object with the single key \<open>value\<close>.\<close>

record MigrateFormValues =
  migratingAssets :: "MigratingAsset list FormValue"
  status :: MigrateStatus
  submit :: "bool FormValue"

text \<open>\<open>Partial<MigrateFormValues>\<close>: the inputs an update names.\<close>

record MigrateFormChanges =
  migratingAssetsC :: "MigratingAsset list InputChange option"
  statusC :: "MigrateStatus option"
  submitC :: "bool InputChange option"

definition noChanges :: MigrateFormChanges where
  "noChanges = \<lparr>migratingAssetsC = None, statusC = None, submitC = None\<rparr>"

text \<open>
  Modelled from the spec: \<open>mergeValues\<close> of the form library; an input the changes do not
  name is kept.
\<close>

definition mergeValues :: "MigrateFormValues \<Rightarrow> MigrateFormChanges \<Rightarrow> MigrateFormValues" where
  "mergeValues form changes =
     \<lparr>migratingAssets =
        (case migratingAssetsC changes of
           None \<Rightarrow> migratingAssets form | Some c \<Rightarrow> mergeInput (migratingAssets form) c),
      status = (case statusC changes of None \<Rightarrow> status form | Some s \<Rightarrow> s),
      submit =
        (case submitC changes of None \<Rightarrow> submit form | Some c \<Rightarrow> mergeInput (submit form) c)\<rparr>"

text \<open>A whole form passed where changes are expected: every input is named, with its keys.\<close>

definition asChanges :: "MigrateFormValues \<Rightarrow> MigrateFormChanges" where
  "asChanges form =
     \<lparr>migratingAssetsC = Some (AllKeys (migratingAssets form)),
      statusC = Some (status form),
      submitC = Some (AllKeys (submit form))\<rparr>"

text \<open>
  Modelled from the spec: \<open>isValidForm\<close> of the form library; a form is valid when none of
  its inputs carries an error (\<open>status\<close> has no message).
\<close>

definition isValidForm :: "MigrateFormValues \<Rightarrow> bool" where
  "isValidForm form =
     (messageType (migratingAssets form) \<noteq> Some ERROR \<and> messageType (submit form) \<noteq> Some ERROR)"

text \<open>
  \<open>initialMigrateFormValues\<close>; the ids of \<open>assets\<close>, a list imported from \<open>../assets\<close>,
  are a parameter.
\<close>

definition initialMigrateFormValues :: "AppAssetId list \<Rightarrow> MigrateFormValues" where
  "initialMigrateFormValues assets =
     \<lparr>migratingAssets =
        literal (map (\<lambda>i. \<lparr>assetId = i, fee = 0, totalFee = 0, noteValues = [],
                           migratableValues = [], migratedValues = []\<rparr>) assets),
      status = CONNECT,
      submit = literal False\<rparr>"

text \<open>
  What the form has done to its collaborators, in order: \<open>accountUtils.addUser\<close> and
  \<open>accountUtils.removeUser\<close> for the previous-generation user, \<open>sdk.createTransferProof\<close>
  (asset, amount, fee), \<open>sdk.sendProof\<close> and \<open>db.addMigratingTx\<close> (asset, amount). A call is
  recorded when it has resolved.
\<close>

datatype Effect =
  AddedUser
| RemovedUser
| ProofCreated AppAssetId int int
| ProofSent AppAssetId int
| TxRecorded AppAssetId int

type_synonym Provider = string

text \<open>
  The fields of a \<open>MigrateForm\<close>. \<open>formValues\<close> is \<open>this.values\<close>; \<open>keyVault\<close> tells
  whether \<open>this.keyVault\<close> is set; \<open>provider\<close> is the account of the provider, if there is a
  provider; \<open>effects\<close> is the record of the calls made so far.
\<close>

record MigrateForm =
  formValues :: MigrateFormValues
  formStatus :: FormStatus
  destroyed :: bool
  keyVault :: bool
  provider :: "Provider option"
  effects :: "Effect list"

text \<open>
  The constructor and the field initialisers.
\<close>

definition newMigrateForm :: "AppAssetId list \<Rightarrow> Provider option \<Rightarrow> MigrateForm" where
  "newMigrateForm assets p =
     \<lparr>formValues = initialMigrateFormValues assets, formStatus = ACTIVE, destroyed = False,
      keyVault = False, provider = p, effects = []\<rparr>"

text \<open>
  How one step of the transfer of a pair of notes ends: \<open>createTransferProof\<close> rejects,
  \<open>sendProof\<close> rejects, \<open>db.addMigratingTx\<close> rejects, or all three resolve.
\<close>

datatype TransferAnswer = ProofRejected | SendRejected | RecordRejected | Completed

text \<open>
  The answers of the wallet SDK, the key vault, the account utilities and the database during
  one call of a method of the form; \<open>None\<close> and \<open>False\<close> stand for a promise that rejects.
  \<open>transfer\<close> is asked with the asset and the index \<open>i\<close> of the pair in \<open>migratableValues\<close>.
\<close>

record Sdk =
  signingMessageV0 :: string
  createV0 :: bool
  addUser :: bool
  awaitUserSynchronised :: bool
  getSpendableNotes :: "AppAssetId \<Rightarrow> int list option"
  getFee :: "AppAssetId \<Rightarrow> int option"
  transfer :: "AppAssetId \<Rightarrow> nat \<Rightarrow> TransferAnswer"
  removeUser :: bool

text \<open>How an async method ends, and how a loop inside one does.\<close>

datatype Completion = Returned | Thrown

datatype Flow = Next | Return | Throw

definition locked :: "MigrateForm \<Rightarrow> bool" where
  "locked st = (formStatus st = LOCKED \<or> formStatus st = PROCESSING)"

definition processing :: "MigrateForm \<Rightarrow> bool" where
  "processing st = (formStatus st = PROCESSING)"

definition updateFormStatus :: "FormStatus \<Rightarrow> MigrateForm \<Rightarrow> MigrateForm" where
  "updateFormStatus s st = st\<lparr>formStatus := s\<rparr>"

definition updateFormValues :: "MigrateFormChanges \<Rightarrow> MigrateForm \<Rightarrow> MigrateForm" where
  "updateFormValues changes st = st\<lparr>formValues := mergeValues (formValues st) changes\<rparr>"

definition prompt :: "string \<Rightarrow> MigrateForm \<Rightarrow> MigrateForm" where
  "prompt m st =
     updateFormValues (noChanges\<lparr>submitC := Some (AllKeys (withWarning (literal True) m))\<rparr>) st"

text \<open>
  \<open>destroy\<close> throws while the form is processing; the listeners it removes are not
  modelled.
\<close>

definition destroy :: "MigrateForm \<Rightarrow> Completion \<times> MigrateForm" where
  "destroy st = (if processing st then (Thrown, st) else (Returned, st\<lparr>destroyed := True\<rparr>))"

definition changeValues :: "MigrateFormChanges \<Rightarrow> MigrateForm \<Rightarrow> MigrateForm" where
  "changeValues changes st = (if locked st then st else updateFormValues changes st)"

definition unlock :: "MigrateForm \<Rightarrow> MigrateForm" where
  "unlock st = updateFormStatus ACTIVE st"

definition lock :: "MigrateForm \<Rightarrow> MigrateForm" where
  "lock st = updateFormStatus LOCKED st"

text \<open>
  The loop of \<open>validateValues\<close> over the migrating assets: \<open>None\<close> when \<open>sdk.getFee\<close>
  rejects, and \<open>break\<close> at the first asset whose fee has gone up.
\<close>

fun validateLoop :: "Sdk \<Rightarrow> MigratingAsset list \<Rightarrow> MigrateFormValues \<Rightarrow> MigrateFormValues option" where
  "validateLoop sdk [] form = Some form"
| "validateLoop sdk (asset # rest) form =
     (case getFee sdk (assetId asset) of
        None \<Rightarrow> None
      | Some f \<Rightarrow>
          if f > fee asset
          then Some (form\<lparr>migratingAssets := withError (migratingAssets form) ''Insufficient fee.''\<rparr>)
          else validateLoop sdk rest form)"

definition validateValues :: "Sdk \<Rightarrow> MigrateForm \<Rightarrow> MigrateFormValues option" where
  "validateValues sdk st =
     (let form = formValues st in validateLoop sdk (val (migratingAssets form)) form)"

text \<open>
  The callback of \<open>syncBalance\<close> for one asset. The comparator sorts the notes by value,
  largest first, and only the values are kept.
\<close>

definition syncAsset :: "Sdk \<Rightarrow> MigratingAsset \<Rightarrow> MigratingAsset option" where
  "syncAsset sdk asset =
     (case getSpendableNotes sdk (assetId asset) of
        None \<Rightarrow> None
      | Some notes \<Rightarrow>
          (case getFee sdk (assetId asset) of
             None \<Rightarrow> None
           | Some f \<Rightarrow>
               (let vs = rev (sort notes);
                    mv = getMigratableValues vs f
                in Some \<lparr>assetId = assetId asset, fee = f,
                         totalFee = f * int ((length mv + 1) div 2),
                         noteValues = vs, migratableValues = mv, migratedValues = []\<rparr>)))"

text \<open>
  \<open>syncBalance\<close>. \<open>this.keyVault!\<close> is destructured, which throws when the key vault is
  not set; \<open>Promise.all\<close> rejects when one of the callbacks does.
\<close>

definition syncBalance :: "Sdk \<Rightarrow> MigrateForm \<Rightarrow> Completion \<times> MigrateForm" where
  "syncBalance sdk st =
     (let st1 = updateFormStatus PROCESSING st;
          st2 = updateFormValues (noChanges\<lparr>statusC := Some SYNC\<rparr>) st1
      in if \<not> keyVault st2 then (Thrown, st2)
         else if \<not> addUser sdk then (Thrown, st2)
         else let st3 = st2\<lparr>effects := effects st2 @ [AddedUser]\<rparr>
              in if \<not> awaitUserSynchronised sdk then (Thrown, st3)
                 else (case those (map (syncAsset sdk) (val (migratingAssets (formValues st3)))) of
                         None \<Rightarrow> (Thrown, st3)
                       | Some assets \<Rightarrow>
                           (let nothing = \<not> list_ex (\<lambda>a. length (migratableValues a) \<noteq> 0) assets
                            in if nothing \<and> \<not> removeUser sdk then (Thrown, st3)
                               else
                                 (let st4 = (if nothing
                                             then st3\<lparr>effects := effects st3 @ [RemovedUser]\<rparr>
                                             else st3);
                                      st5 = updateFormStatus LOCKED st4
                                  in (Returned,
                                      updateFormValues
                                        (noChanges\<lparr>migratingAssetsC := Some (ValueKey assets),
                                                   statusC := Some CONFIRM\<rparr>) st5)))))"

definition updateMigratingAssets :: "AppAssetId \<Rightarrow> int \<Rightarrow> MigrateForm \<Rightarrow> MigrateForm" where
  "updateMigratingAssets aid v st =
     (let assets =
            map (\<lambda>asset. if assetId asset \<noteq> aid then asset
                          else asset\<lparr>migratedValues := migratedValues asset @ [v]\<rparr>)
              (val (migratingAssets (formValues st)))
      in updateFormValues (noChanges\<lparr>migratingAssetsC := Some (ValueKey assets)\<rparr>) st)"

text \<open>The inner loop of \<open>migrateNotes\<close>, over the pairs of one asset, from index \<open>i\<close>.\<close>

function notesLoop :: "Sdk \<Rightarrow> MigratingAsset \<Rightarrow> nat \<Rightarrow> MigrateForm \<Rightarrow> Flow \<times> MigrateForm" where
  "notesLoop sdk asset i st =
     (if i < length (migratableValues asset)
      then if destroyed st then (Return, st)
           else (let amount =
                       foldl (\<lambda>sum v. sum + v) 0 (take 2 (drop i (migratableValues asset)))
                         - fee asset
                 in case transfer sdk (assetId asset) i of
                      ProofRejected \<Rightarrow> (Throw, st)
                    | SendRejected \<Rightarrow>
                        (Throw, st\<lparr>effects := effects st
                                     @ [ProofCreated (assetId asset) amount (fee asset)]\<rparr>)
                    | RecordRejected \<Rightarrow>
                        (Throw, st\<lparr>effects := effects st
                                     @ [ProofCreated (assetId asset) amount (fee asset),
                                        ProofSent (assetId asset) amount]\<rparr>)
                    | Completed \<Rightarrow>
                        notesLoop sdk asset (i + 2)
                          (updateMigratingAssets (assetId asset) amount
                             (st\<lparr>effects := effects st
                                   @ [ProofCreated (assetId asset) amount (fee asset),
                                      ProofSent (assetId asset) amount,
                                      TxRecorded (assetId asset) amount]\<rparr>)))
      else (Next, st))"
  by pat_completeness auto
termination
  by (relation "measure (\<lambda>(sdk, asset, i, st). length (migratableValues asset) - i)") auto

declare notesLoop.simps [simp del]

text \<open>The outer loop of \<open>migrateNotes\<close>, over the assets read when the method started.\<close>

fun assetsLoop :: "Sdk \<Rightarrow> MigratingAsset list \<Rightarrow> MigrateForm \<Rightarrow> Flow \<times> MigrateForm" where
  "assetsLoop sdk [] st = (Next, st)"
| "assetsLoop sdk (asset # rest) st =
     (case notesLoop sdk asset 0 st of
        (Next, st') \<Rightarrow> assetsLoop sdk rest st'
      | (Return, st') \<Rightarrow> (Return, st')
      | (Throw, st') \<Rightarrow> (Throw, st'))"

text \<open>
  \<open>migrateNotes\<close>: the status update, the two loops, and, when the loops run to their end,
  the removal of the previous-generation user and the status DONE.
\<close>

definition migrateNotes :: "Sdk \<Rightarrow> MigrateForm \<Rightarrow> Completion \<times> MigrateForm" where
  "migrateNotes sdk st =
     (let st1 = updateFormValues (noChanges\<lparr>statusC := Some MIGRATE\<rparr>) st
      in if \<not> keyVault st1 then (Thrown, st1)
         else (case assetsLoop sdk (val (migratingAssets (formValues st1))) st1 of
                 (Throw, st2) \<Rightarrow> (Thrown, st2)
               | (Return, st2) \<Rightarrow> (Returned, st2)
               | (Next, st2) \<Rightarrow>
                   if \<not> removeUser sdk then (Thrown, st2)
                   else (Returned,
                         updateFormValues (noChanges\<lparr>statusC := Some DONE\<rparr>)
                           (st2\<lparr>effects := effects st2 @ [RemovedUser]\<rparr>))))"

text \<open>\<open>submit\<close>, named with its class because \<open>submit\<close> is an input of the form.\<close>

definition MigrateForm_submit :: "Sdk \<Rightarrow> MigrateForm \<Rightarrow> Completion \<times> MigrateForm" where
  "MigrateForm_submit sdk st =
     (if processing st then (Returned, st)
      else
        (let st1 = updateFormStatus PROCESSING st;
             st2 = updateFormValues
                     (noChanges\<lparr>statusC := Some VALIDATE,
                                submitC := Some (AllKeys (clearMessage (literal True)))\<rparr>) st1
         in case validateValues sdk st2 of
              None \<Rightarrow> (Thrown, st2)
            | Some validated \<Rightarrow>
                if \<not> isValidForm validated
                then (Returned,
                      updateFormStatus LOCKED
                        (updateFormValues
                           (asChanges
                              (mergeValues validated
                                 (noChanges\<lparr>statusC := Some CONFIRM,
                                            submitC := Some (AllKeys (clearMessage (literal False)))\<rparr>)))
                           st2))
                else
                  (case migrateNotes sdk st2 of
                     (Returned, st3) \<Rightarrow> (Returned, updateFormStatus LOCKED st3)
                   | (Thrown, st3) \<Rightarrow>
                       (Returned,
                        updateFormStatus LOCKED
                          (updateFormValues
                             (noChanges\<lparr>submitC := Some (AllKeys (withError (literal False)
                                ''Something went wrong. This shouldn't happen.''))\<rparr>)
                             st3)))))"

text \<open>\<open>signingMessage.slice(0, 6)\<close> and \<open>signingMessage.slice(-4)\<close> inside the prompt.\<close>

definition promptMessage :: "string \<Rightarrow> string" where
  "promptMessage signingMessage =
     ''To check the balances in your old account, please sign the following hash in your wallet: 0x''
       @ take 6 signingMessage @ ''...'' @ drop (length signingMessage - 4) signingMessage"

text \<open>
  \<open>onProviderStateChange\<close>; \<open>denied\<close> is the body of its \<open>catch\<close>.
\<close>

definition onProviderStateChange :: "Sdk \<Rightarrow> MigrateForm \<Rightarrow> MigrateForm" where
  "onProviderStateChange sdk st =
     (if status (formValues st) \<noteq> CONNECT then st
      else
        (let st1 = updateFormValues
                     (noChanges\<lparr>submitC := Some (AllKeys (clearMessage (literal False)))\<rparr>) st
         in if provider st1 = None then st1
            else
              (let st2 = prompt (promptMessage (signingMessageV0 sdk)) st1;
                   denied = (\<lambda>s. if status (formValues s) = CONNECT
                                  then updateFormValues
                                         (noChanges\<lparr>submitC := Some (AllKeys (withError (literal False)
                                            ''Message signature denied.''))\<rparr>) s
                                  else s)
               in if \<not> createV0 sdk then denied st2
                  else
                    (let st3 = st2\<lparr>keyVault := True\<rparr>
                     in if \<not> destroyed st3 \<and> status (formValues st3) = CONNECT
                        then (case syncBalance sdk st3 of
                                (Returned, st4) \<Rightarrow> st4
                              | (Thrown, st4) \<Rightarrow> denied st4)
                        else st3))))"

text \<open>
  \<open>init\<close> calls \<open>onProviderStateChange\<close> and does not wait for it; the model runs it to
  its end.
\<close>

definition init :: "Sdk \<Rightarrow> MigrateForm \<Rightarrow> MigrateForm" where
  "init sdk st = onProviderStateChange sdk st"

definition changeProvider :: "Provider option \<Rightarrow> Sdk \<Rightarrow> MigrateForm \<Rightarrow> MigrateForm" where
  "changeProvider p sdk st =
     (if status (formValues st) \<noteq> CONNECT then st
      else onProviderStateChange sdk (st\<lparr>provider := p\<rparr>))"

section \<open>Count-down data (useCountDownData)\<close>

text \<open>
  A JavaScript number: a double (IEEE 754 binary64), given by the rational it stands for, or
  one of the two infinities, or NaN. The two zeros are not told apart; no operation of
  \<open>useCountDownData\<close> does.
\<close>

datatype number = Finite rat | PosInfinity | NegInfinity | NaN

text \<open>
  The binary exponent of a rational other than zero: the \<open>e\<close> with
  \<open>2^e \<le> |x| < 2^(e + 1)\<close>, computed from the bit lengths of numerator and denominator.
\<close>

definition expo :: "rat \<Rightarrow> int" where
  "expo x =
     (let (p, q) = quotient_of \<bar>x\<bar>;
          d = int (floorlog 2 (nat p)) - int (floorlog 2 (nat q))
      in if 2 powi d \<le> \<bar>x\<bar> then d else d - 1)"

text \<open>The nearest integer, a tie going to the even one.\<close>

definition roundEven :: "rat \<Rightarrow> int" where
  "roundEven q =
     (let f = \<lfloor>q\<rfloor>; d = q - of_int f
      in if d < 1 / 2 then f else if 1 / 2 < d then f + 1 else if even f then f else f + 1)"

text \<open>
  The distance between the doubles around \<open>x\<close>: 53 significant bits, and the exponent of
  the subnormal numbers below \<open>2^-1022\<close>.
\<close>

definition ulp :: "rat \<Rightarrow> rat" where
  "ulp x = 2 powi (max (expo x) (- 1022) - 52)"

text \<open>
  Rounding to the nearest double, ties to even, before the test for overflow: what every
  arithmetic operation on numbers does to its exact result.
\<close>

definition rnd :: "rat \<Rightarrow> rat" where
  "rnd x = (if x = 0 then 0 else of_int (roundEven (x / ulp x)) * ulp x)"

definition toNumber :: "rat \<Rightarrow> number" where
  "toNumber x =
     (let r = rnd x
      in if 2 ^ 1024 \<le> r then PosInfinity else if r \<le> - (2 ^ 1024) then NegInfinity else Finite r)"

text \<open>
  \<open>Number(x)\<close> for an integer \<open>x\<close>, as the gas amounts of a bridge status are: the double
  nearest to it.
\<close>

definition Number :: "int \<Rightarrow> number" where
  "Number k = toNumber (of_int k)"

text \<open>The operators \<open>/\<close> and \<open>*\<close> on numbers.\<close>

fun number_div :: "number \<Rightarrow> number \<Rightarrow> number" where
  "number_div NaN y = NaN"
| "number_div x NaN = NaN"
| "number_div (Finite a) (Finite b) =
     (if b = 0 then (if a = 0 then NaN else if 0 < a then PosInfinity else NegInfinity)
      else toNumber (a / b))"
| "number_div (Finite a) y = Finite 0"
| "number_div PosInfinity (Finite b) = (if b < 0 then NegInfinity else PosInfinity)"
| "number_div NegInfinity (Finite b) = (if b < 0 then PosInfinity else NegInfinity)"
| "number_div x y = NaN"

fun number_times :: "number \<Rightarrow> number \<Rightarrow> number" where
  "number_times NaN y = NaN"
| "number_times x NaN = NaN"
| "number_times (Finite a) (Finite b) = toNumber (a * b)"
| "number_times (Finite a) PosInfinity =
     (if a = 0 then NaN else if 0 < a then PosInfinity else NegInfinity)"
| "number_times (Finite a) NegInfinity =
     (if a = 0 then NaN else if 0 < a then NegInfinity else PosInfinity)"
| "number_times PosInfinity (Finite b) =
     (if b = 0 then NaN else if 0 < b then PosInfinity else NegInfinity)"
| "number_times NegInfinity (Finite b) =
     (if b = 0 then NaN else if 0 < b then NegInfinity else PosInfinity)"
| "number_times PosInfinity PosInfinity = PosInfinity"
| "number_times PosInfinity NegInfinity = NegInfinity"
| "number_times NegInfinity PosInfinity = NegInfinity"
| "number_times NegInfinity NegInfinity = PosInfinity"

text \<open>\<open>Math.max\<close>, \<open>Math.min\<close> and \<open>Math.floor\<close>; a NaN argument gives NaN.\<close>

fun Math_max :: "number \<Rightarrow> number \<Rightarrow> number" where
  "Math_max NaN y = NaN"
| "Math_max x NaN = NaN"
| "Math_max PosInfinity y = PosInfinity"
| "Math_max x PosInfinity = PosInfinity"
| "Math_max NegInfinity y = y"
| "Math_max x NegInfinity = x"
| "Math_max (Finite a) (Finite b) = Finite (max a b)"

fun Math_min :: "number \<Rightarrow> number \<Rightarrow> number" where
  "Math_min NaN y = NaN"
| "Math_min x NaN = NaN"
| "Math_min NegInfinity y = NegInfinity"
| "Math_min x NegInfinity = NegInfinity"
| "Math_min PosInfinity y = y"
| "Math_min x PosInfinity = x"
| "Math_min (Finite a) (Finite b) = Finite (min a b)"

fun Math_floor :: "number \<Rightarrow> number" where
  "Math_floor (Finite a) = Finite (of_int \<lfloor>a\<rfloor>)"
| "Math_floor x = x"

text \<open>
  The fields of the rollup provider status that \<open>useCountDownData\<close> reads. The bridge call
  data is a bigint, here never negative; \<open>numTxs\<close> and the default batch size are counts;
  the gas amounts are integers.
\<close>

record BridgeStatus =
  bridgeCallData :: nat
  numTxs :: nat
  gasThreshold :: int
  gasAccrued :: int

record RuntimeConfig =
  defaultDeFiBatchSize :: nat

record RollupProviderStatus =
  bridgeStatus :: "BridgeStatus list"
  runtimeConfig :: RuntimeConfig

record CountDownData =
  totalSlots :: nat
  takenSlots :: number

text \<open>
  \<open>useCountDownData\<close>. Its first argument is what the hook \<open>useRollupProviderStatus\<close>
  returns, \<open>None\<close> while there is no status yet; its second is
  \<open>bridgeCallData?.toBigInt()\<close>, \<open>None\<close> for undefined. The result is \<open>None\<close> when the
  function returns undefined. \<open>nextBatch\<close> comes from \<open>estimateDefiSettlementTimes\<close>,
  which is outside the sources, and is left out of the result.
\<close>

definition useCountDownData ::
  "RollupProviderStatus option \<Rightarrow> nat option \<Rightarrow> CountDownData option" where
  "useCountDownData useRollupProviderStatus bridgeCallDataNum =
     (case useRollupProviderStatus of
        None \<Rightarrow> None
      | Some rpStatus \<Rightarrow>
          (let found = find (\<lambda>x. Some (bridgeCallData x) = bridgeCallDataNum)
                         (bridgeStatus rpStatus);
               total = (case found of
                          Some s \<Rightarrow> numTxs s
                        | None \<Rightarrow> defaultDeFiBatchSize (runtimeConfig rpStatus));
               fraction = (case found of
                             Some s \<Rightarrow> number_div (Number (gasAccrued s)) (Number (gasThreshold s))
                           | None \<Rightarrow> Finite 0);
               taken = Math_floor (number_times (Finite (of_nat total))
                                     (Math_min (Finite 1) (Math_max (Finite 0) fraction)))
           in Some \<lparr>totalSlots = total, takenSlots = taken\<rparr>))"

text \<open>
  A rational that is a double: rounding leaves it as it is. Every count up to \<open>2^53\<close> is
  one (lemma \<open>isDouble_count\<close>).
\<close>

definition isDouble :: "rat \<Rightarrow> bool" where
  "isDouble x = (toNumber x = Finite x)"

section \<open>Notions used to state the properties of the migration form\<close>

text \<open>
  The amount sent for the pair of notes at index \<open>i\<close> of an asset: the sum of the pair less
  the fee.
\<close>

definition amountAt :: "MigratingAsset \<Rightarrow> nat \<Rightarrow> int" where
  "amountAt asset i = sum_list (take 2 (drop i (migratableValues asset))) - fee asset"

text \<open>
  \<open>recorded aid es\<close> counts the transfers of asset \<open>aid\<close> in \<open>es\<close> that were created, sent
  and written to the database; \<open>isProof\<close> holds of the creation and of the sending of a proof.
\<close>

fun isRecorded :: "AppAssetId \<Rightarrow> Effect \<Rightarrow> bool" where
  "isRecorded aid (TxRecorded b v) = (b = aid)"
| "isRecorded aid e = False"

definition recorded :: "AppAssetId \<Rightarrow> Effect list \<Rightarrow> nat" where
  "recorded aid es = length (filter (isRecorded aid) es)"

fun isProof :: "Effect \<Rightarrow> bool" where
  "isProof (ProofCreated a v f) = True"
| "isProof (ProofSent a v) = True"
| "isProof e = False"

text \<open>
  The assets with \<open>vs\<close> appended to the migrated values of every asset with id \<open>aid\<close>, and
  a form with its assets replaced and new effects appended.
\<close>

definition addMigrated :: "AppAssetId \<Rightarrow> int list \<Rightarrow> MigratingAsset list \<Rightarrow> MigratingAsset list" where
  "addMigrated aid vs assets =
     map (\<lambda>a. if assetId a \<noteq> aid then a else a\<lparr>migratedValues := migratedValues a @ vs\<rparr>) assets"

definition withAssets :: "MigratingAsset list \<Rightarrow> Effect list \<Rightarrow> MigrateForm \<Rightarrow> MigrateForm" where
  "withAssets assets new st =
     st\<lparr>formValues := (formValues st)\<lparr>migratingAssets := (migratingAssets (formValues st))\<lparr>val := assets\<rparr>\<rparr>,
        effects := effects st @ new\<rparr>"

text \<open>
  The amounts a run of the outer loop over \<open>rest\<close> with the new effects \<open>new\<close> has appended
  to the asset \<open>a\<close>.
\<close>

definition migratedBy :: "MigratingAsset list \<Rightarrow> Effect list \<Rightarrow> MigratingAsset \<Rightarrow> int list" where
  "migratedBy rest new a =
     (case find (\<lambda>r. assetId r = assetId a) rest of
        None \<Rightarrow> []
      | Some r \<Rightarrow> map (\<lambda>j. amountAt r (2 * j)) [0..<recorded (assetId a) new])"

text \<open>
  \<open>this.updateFormValues({ status: { value: s } })\<close>.
\<close>

definition setStatus :: "MigrateStatus \<Rightarrow> MigrateForm \<Rightarrow> MigrateForm" where
  "setStatus s st = updateFormValues (noChanges\<lparr>statusC := Some s\<rparr>) st"

text \<open>
  The form as \<open>submit\<close> has it when it calls \<open>validateValues\<close>: processing, at VALIDATE,
  with \<open>submit\<close> set and its message cleared.
\<close>

definition validating :: "MigrateForm \<Rightarrow> MigrateForm" where
  "validating st =
     updateFormValues
       (noChanges\<lparr>statusC := Some VALIDATE, submitC := Some (AllKeys (clearMessage (literal True)))\<rparr>)
       (updateFormStatus PROCESSING st)"

text \<open>
  The form as \<open>submit\<close> leaves it when the validation has attached its error.
\<close>

text \<open>What submit leaves when the validation has attached an error.\<close>

definition refused :: "MigrateForm \<Rightarrow> MigrateForm" where
  "refused st =
     st\<lparr>formValues :=
          \<lparr>migratingAssets = withError (migratingAssets (formValues st)) ''Insufficient fee.'',
           status = CONFIRM,
           submit = \<lparr>val = False, message = None, messageType = None\<rparr>\<rparr>,
        formStatus := LOCKED\<rparr>"

text \<open>
  The calls a session makes on a form: the public methods of the class, each \<open>Sdk\<close> being
  the answers the SDK gives during that call.
\<close>

datatype Call =
  Init Sdk | ChangeProvider "Provider option" Sdk | ChangeValues MigrateFormChanges
  | Unlock | Lock | Submit Sdk | Destroy

fun call :: "Call \<Rightarrow> MigrateForm \<Rightarrow> MigrateForm" where
  "call (Init sdk) st = init sdk st"
| "call (ChangeProvider p sdk) st = changeProvider p sdk st"
| "call (ChangeValues changes) st = changeValues changes st"
| "call Unlock st = unlock st"
| "call Lock st = lock st"
| "call (Submit sdk) st = snd (MigrateForm_submit sdk st)"
| "call Destroy st = snd (destroy st)"

definition session :: "Call list \<Rightarrow> MigrateForm \<Rightarrow> MigrateForm" where
  "session cs st = foldl (\<lambda>s c. call c s) st cs"

text \<open>
  The array \<open>Promise.all\<close> resolves to in \<open>syncBalance\<close>, when every callback resolves.
\<close>

definition syncedAssets :: "Sdk \<Rightarrow> MigrateForm \<Rightarrow> MigratingAsset list option" where
  "syncedAssets sdk st = those (map (syncAsset sdk) (val (migratingAssets (formValues st))))"

text \<open>
  No asset of the form has a migratable value: the condition \<open>syncBalance\<close> tests.
\<close>

definition noFunds :: "MigrateForm \<Rightarrow> bool" where
  "noFunds st = (\<not> list_ex (\<lambda>a. length (migratableValues a) \<noteq> 0) (val (migratingAssets (formValues st))))"

text \<open>
  The value a change gives an input.
\<close>

fun changed :: "'a InputChange \<Rightarrow> 'a" where
  "changed (ValueKey v) = v"
| "changed (AllKeys input) = val input"

text \<open>
  A set of changes that brings no funds: the assets it names, if it names any, have no
  migratable value, and it does not set the status back to CONNECT, from where \<open>init\<close> and
  \<open>changeProvider\<close> synchronise the balance again.
\<close>

definition keepsNoFunds :: "MigrateFormChanges \<Rightarrow> bool" where
  "keepsNoFunds changes =
     ((case migratingAssetsC changes of
         None \<Rightarrow> True
       | Some c \<Rightarrow> \<not> list_ex (\<lambda>a. length (migratableValues a) \<noteq> 0) (changed c))
      \<and> statusC changes \<noteq> Some CONNECT)"

text \<open>
  A call that brings no funds: any call of \<open>init\<close>, \<open>changeProvider\<close>, \<open>unlock\<close>,
  \<open>lock\<close>, \<open>submit\<close> and \<open>destroy\<close>, and a call of \<open>changeValues\<close> whose changes bring
  none.
\<close>

fun quiet :: "Call \<Rightarrow> bool" where
  "quiet (ChangeValues changes) = keepsNoFunds changes"
| "quiet c = True"

section \<open>Concrete inputs\<close>

text \<open>
  The inputs of the witnesses and counterexamples: assets and contract answers for the
  adapter, a progress page, and for the migration form a wallet with two notes of 3 and 5 and a
  fee of 1, the same wallet with no notes, with transfers that are rejected and with a fee
  of 2, the forms these wallets lead to from a new form, and two sets of changes for
  \<open>changeValues\<close>; for the count-down a provider status whose one bridge has 49 slots and
  a 49th of its gas, and one whose bridge has 8 slots and half of its gas.
\<close>

definition dai :: AztecAsset where
  "dai = \<lparr>asset_id = 1, erc20Address = ''0x6b17''\<rparr>"

definition unlisted :: AztecAsset where
  "unlisted = \<lparr>asset_id = 3, erc20Address = ''0x0003''\<rparr>"

definition answering :: Contracts where
  "answering = \<lparr>vault_asset = Some ''0xa0b8'', token_name = Some ''Dai Stablecoin'',
     token_symbol = Some ''DAI'', token_decimals = Some 18\<rparr>"

definition migratePage :: ProgressTemplateProps where
  "migratePage =
     \<lparr>steps = [\<lparr>stepStatus = 3, stepText = ''Validating''\<rparr>,
               \<lparr>stepStatus = 4, stepText = ''Migrating''\<rparr>,
               \<lparr>stepStatus = 5, stepText = ''Done''\<rparr>],
      formValid = True, currentStatus = 4, confirmStatus = 2, doneStatus = 5,
      propMessage = Some ''Something went wrong.'', propMessageType = Some ERROR\<rparr>"

definition unitFee :: "AppAssetId \<Rightarrow> int option" where
  "unitFee a = Some 1"

definition raisedFee :: "AppAssetId \<Rightarrow> int option" where
  "raisedFee a = Some 2"

definition twoNotes :: "AppAssetId \<Rightarrow> int list option" where
  "twoNotes a = Some [3, 5]"

definition noNotes :: "AppAssetId \<Rightarrow> int list option" where
  "noNotes a = Some []"

definition completes :: "AppAssetId \<Rightarrow> nat \<Rightarrow> TransferAnswer" where
  "completes a i = Completed"

definition sendRejects :: "AppAssetId \<Rightarrow> nat \<Rightarrow> TransferAnswer" where
  "sendRejects a i = SendRejected"

definition wallet :: Sdk where
  "wallet = \<lparr>signingMessageV0 = ''a1b2c3d4e5f6'', createV0 = True, addUser = True,
     awaitUserSynchronised = True, getSpendableNotes = twoNotes, getFee = unitFee,
     transfer = completes, removeUser = True\<rparr>"

definition emptyWallet :: Sdk where
  "emptyWallet = wallet\<lparr>getSpendableNotes := noNotes\<rparr>"

definition failingWallet :: Sdk where
  "failingWallet = wallet\<lparr>transfer := sendRejects\<rparr>"

definition dearerWallet :: Sdk where
  "dearerWallet = wallet\<lparr>getFee := raisedFee\<rparr>"

definition freshForm :: MigrateForm where
  "freshForm = newMigrateForm [0] (Some ''0x52a1'')"

definition synced :: MigrateForm where
  "synced = init wallet freshForm"

definition syncedEmpty :: MigrateForm where
  "syncedEmpty = init emptyWallet freshForm"

definition fundedAsset :: MigratingAsset where
  "fundedAsset = \<lparr>assetId = 0, fee = 1, totalFee = 1, noteValues = [5, 3],
     migratableValues = [5, 3], migratedValues = []\<rparr>"

definition emptyAsset :: MigratingAsset where
  "emptyAsset = \<lparr>assetId = 0, fee = 1, totalFee = 0, noteValues = [],
     migratableValues = [], migratedValues = []\<rparr>"

definition injected :: MigrateFormChanges where
  "injected = noChanges\<lparr>migratingAssetsC := Some (ValueKey [fundedAsset])\<rparr>"

definition ticked :: MigrateFormChanges where
  "ticked = noChanges\<lparr>submitC := Some (ValueKey True)\<rparr>"

definition unlockedForm :: MigrateForm where
  "unlockedForm = freshForm\<lparr>keyVault := True\<rparr>"

text \<open>
  \<open>stuck\<close> is the synchronised form after a submit whose transfer was rejected, \<open>rejected\<close>
  after a submit that found the fee raised, \<open>gone\<close> the form without funds after
  \<open>destroy\<close>, and \<open>goneFunded\<close> the form with funds after \<open>destroy\<close>.
\<close>

definition stuck :: MigrateForm where
  "stuck = snd (MigrateForm_submit failingWallet synced)"

definition rejected :: MigrateForm where
  "rejected = snd (MigrateForm_submit dearerWallet synced)"

definition gone :: MigrateForm where
  "gone = snd (destroy syncedEmpty)"

definition goneFunded :: MigrateForm where
  "goneFunded = snd (destroy synced)"

definition nearlyEmpty :: RollupProviderStatus where
  "nearlyEmpty =
     \<lparr>bridgeStatus = [\<lparr>bridgeCallData = 7, numTxs = 49, gasThreshold = 49, gasAccrued = 1\<rparr>],
      runtimeConfig = \<lparr>defaultDeFiBatchSize = 10\<rparr>\<rparr>"

definition halfFull :: RollupProviderStatus where
  "halfFull =
     \<lparr>bridgeStatus = [\<lparr>bridgeCallData = 7, numTxs = 8, gasThreshold = 2, gasAccrued = 1\<rparr>],
      runtimeConfig = \<lparr>defaultDeFiBatchSize = 10\<rparr>\<rparr>"

section \<open>Theorems: Euler redemption bridge data\<close>

text \<open>
  C6: for every choice of the four asset arguments, every auxData and every inputValue,
  getExpectedOutput gives a one-element array whose element is the quotient of
  inputValue * auxData by 10^18 rounded towards zero: it has the sign of the product (or is
  zero), and its absolute value is the floor of the quotient of the absolute values. The
  result does not depend on the assets, and the function reads no contract.
\<close>

theorem getExpectedOutput_truncated_quotient:
  "\<exists>q. getExpectedOutput inputAssetA inputAssetB outputAssetA outputAssetB auxData inputValue = [q]
       \<and> q = sgn (inputValue * auxData) * (\<bar>inputValue * auxData\<bar> div 10 ^ 18)
       \<and> \<bar>q\<bar> * 10 ^ 18 \<le> \<bar>inputValue * auxData\<bar>
       \<and> \<bar>inputValue * auxData\<bar> < (\<bar>q\<bar> + 1) * 10 ^ 18
       \<and> getExpectedOutput inputAssetA' inputAssetB' outputAssetA' outputAssetB' auxData inputValue = [q]"
proof -
  define x where "x = inputValue * auxData"
  define q where "q = sgn x * (\<bar>x\<bar> div 10 ^ 18)"
  have d: "(10::int) ^ 18 > 0" by simp
  have absq: "\<bar>q\<bar> = \<bar>x\<bar> div 10 ^ 18"
    by (cases "x = 0") (simp_all add: q_def abs_mult pos_imp_zdiv_nonneg_iff)
  have lo: "\<bar>q\<bar> * 10 ^ 18 \<le> \<bar>x\<bar>"
    unfolding absq using d by (metis div_mult_mod_eq le_add_same_cancel1 pos_mod_sign)
  have "\<bar>x\<bar> mod 10 ^ 18 < (10::int) ^ 18"
    using d by (rule pos_mod_bound)
  then have hi: "\<bar>x\<bar> < (\<bar>q\<bar> + 1) * 10 ^ 18"
    unfolding absq using div_mult_mod_eq [of "\<bar>x\<bar>" "(10::int) ^ 18"]
    by (simp add: algebra_simps)
  have "x sdiv 10 ^ 18 = q"
    by (simp add: q_def signed_divide_int_def)
  then show ?thesis
    using lo hi unfolding getExpectedOutput_def x_def [symmetric] q_def [symmetric]
    by (simp add: q_def)
qed

text \<open>
  C7: each of getInteractionPresentValue, getExpiration, hasFinalised, getInteractionAPR,
  getTermAPR, getBorrowingFee, getCurrentCR, getUserDebtAndCollateral and getCustomMaxPrice
  throws Error('Method not implemented.') on every input, and returns no value.
\<close>

theorem unimplemented_methods_throw:
  "getInteractionPresentValue n v = Inl (Error ''Method not implemented.'')
   \<and> getExpiration n = Inl (Error ''Method not implemented.'')
   \<and> hasFinalised n = Inl (Error ''Method not implemented.'')
   \<and> getInteractionAPR n = Inl (Error ''Method not implemented.'')
   \<and> getTermAPR a x v = Inl (Error ''Method not implemented.'')
   \<and> getBorrowingFee v = Inl (Error ''Method not implemented.'')
   \<and> getCurrentCR u = Inl (Error ''Method not implemented.'')
   \<and> getUserDebtAndCollateral v = Inl (Error ''Method not implemented.'')
   \<and> getCustomMaxPrice v = Inl (Error ''Method not implemented.'')
   \<and> getInteractionPresentValue n v \<noteq> Inr r1
   \<and> getExpiration n \<noteq> Inr r2
   \<and> hasFinalised n \<noteq> Inr r3
   \<and> getInteractionAPR n \<noteq> Inr r4
   \<and> getTermAPR a x v \<noteq> Inr r5
   \<and> getBorrowingFee v \<noteq> Inr r6
   \<and> getCurrentCR u \<noteq> Inr r7
   \<and> getUserDebtAndCollateral v \<noteq> Inr r8
   \<and> getCustomMaxPrice v \<noteq> Inr r9"
  by (simp add: getInteractionPresentValue_def getExpiration_def hasFinalised_def
      getInteractionAPR_def getTermAPR_def getBorrowingFee_def getCurrentCR_def
      getUserDebtAndCollateral_def getCustomMaxPrice_def)

text \<open>
  C8: the table minTokenOut has the six keys 0, 1, 2, 5, 6 and 7. For an asset with one of these
  ids the bound read from the table is the bigint 99 * 10^16 or 96 * 10^16, getAuxData resolves
  to the array holding it, and getUnderlyingAmount returns (when its contract calls resolve)
  with the amount (amount * bound) / 10^18. For any other id the read gives undefined:
  getAuxData resolves to an array holding undefined and no bigint, and getUnderlyingAmount
  never returns; once vault.asset() has resolved, it is the product that throws.
\<close>

theorem minTokenOut_domain:
  "(k \<in> {0, 1, 2, 5, 6, 7} \<and> asset_id outputAssetA = k \<and> asset_id share = k \<longrightarrow>
      (\<exists>v. minTokenOut k = Some v \<and> (v = 99 * 10 ^ 16 \<or> v = 96 * 10 ^ 16)
         \<and> getAuxData inputAssetA inputAssetB outputAssetA outputAssetB = [Some v]
         \<and> (vault_asset c \<noteq> None \<and> token_name c \<noteq> None \<and> token_symbol c \<noteq> None
              \<and> token_decimals c \<noteq> None \<longrightarrow>
            (\<exists>u. getUnderlyingAmount c share amnt = Inr u \<and> amount u = (amnt * v) sdiv 10 ^ 18))))
   \<and> (k \<notin> {0, 1, 2, 5, 6, 7} \<and> asset_id outputAssetA = k \<and> asset_id share = k \<longrightarrow>
      minTokenOut k = None
      \<and> getAuxData inputAssetA inputAssetB outputAssetA outputAssetB = [None]
      \<and> (\<forall>u. getUnderlyingAmount c share amnt \<noteq> Inr u)
      \<and> (vault_asset c \<noteq> None \<longrightarrow> getUnderlyingAmount c share amnt = Inl TypeError))"
proof -
  have in_dom: "\<exists>v. minTokenOut k = Some v \<and> (v = 99 * 10 ^ 16 \<or> v = 96 * 10 ^ 16)"
    if "k \<in> {0, 1, 2, 5, 6, 7}"
    using that by (auto simp: minTokenOut_def)
  have out_dom: "minTokenOut k = None" if "k \<notin> {0, 1, 2, 5, 6, 7}"
    using that by (simp add: minTokenOut_def)
  show ?thesis
  proof (intro conjI impI)
    assume a: "k \<in> {0, 1, 2, 5, 6, 7} \<and> asset_id outputAssetA = k \<and> asset_id share = k"
    then obtain v where v: "minTokenOut k = Some v" "v = 99 * 10 ^ 16 \<or> v = 96 * 10 ^ 16"
      using in_dom by blast
    have "vault_asset c \<noteq> None \<and> token_name c \<noteq> None \<and> token_symbol c \<noteq> None
            \<and> token_decimals c \<noteq> None \<longrightarrow>
          (\<exists>u. getUnderlyingAmount c share amnt = Inr u \<and> amount u = (amnt * v) sdiv 10 ^ 18)"
      using a v(1) by (auto simp: getUnderlyingAmount_def bigint_times_def)
    moreover have "getAuxData inputAssetA inputAssetB outputAssetA outputAssetB = [Some v]"
      using a v(1) by (simp add: getAuxData_def)
    ultimately show "\<exists>v. minTokenOut k = Some v \<and> (v = 99 * 10 ^ 16 \<or> v = 96 * 10 ^ 16)
         \<and> getAuxData inputAssetA inputAssetB outputAssetA outputAssetB = [Some v]
         \<and> (vault_asset c \<noteq> None \<and> token_name c \<noteq> None \<and> token_symbol c \<noteq> None
              \<and> token_decimals c \<noteq> None \<longrightarrow>
            (\<exists>u. getUnderlyingAmount c share amnt = Inr u \<and> amount u = (amnt * v) sdiv 10 ^ 18))"
      using v by blast
  next
    assume a: "k \<notin> {0, 1, 2, 5, 6, 7} \<and> asset_id outputAssetA = k \<and> asset_id share = k"
    then have n: "minTokenOut k = None" using out_dom by simp
    show "minTokenOut k = None" by (fact n)
    show "getAuxData inputAssetA inputAssetB outputAssetA outputAssetB = [None]"
      using a n by (simp add: getAuxData_def)
    show "\<forall>u. getUnderlyingAmount c share amnt \<noteq> Inr u"
      using a n by (simp add: getUnderlyingAmount_def bigint_times_def split: option.splits)
    assume "vault_asset c \<noteq> None"
    then show "getUnderlyingAmount c share amnt = Inl TypeError"
      using a n by (auto simp: getUnderlyingAmount_def bigint_times_def)
  qed
qed

theorem minTokenOut_domain_witness:
  "minTokenOut 1 = Some (96 * 10 ^ 16)
   \<and> getAuxData dai dai dai dai = [Some (96 * 10 ^ 16)]
   \<and> (\<exists>u. getUnderlyingAmount answering dai 250 = Inr u \<and> amount u = 240)
   \<and> minTokenOut 3 = None
   \<and> getAuxData unlisted unlisted unlisted unlisted = [None]
   \<and> getUnderlyingAmount answering unlisted 250 = Inl TypeError"
proof -
  have s: "(250 * (96 * 10 ^ 16)) sdiv 10 ^ 18 = (240::int)"
    by (simp add: signed_divide_int_def)
  have a: "asset_id dai = 1" "asset_id unlisted = 3" "vault_asset answering \<noteq> None"
    "token_name answering \<noteq> None" "token_symbol answering \<noteq> None"
    "token_decimals answering \<noteq> None"
    by (simp_all add: dai_def unlisted_def answering_def)
  have m: "minTokenOut 1 = Some (96 * 10 ^ 16)"
    by (simp add: minTokenOut_def)
  from minTokenOut_domain [where k = 1 and outputAssetA = dai and share = dai and inputAssetA = dai
      and inputAssetB = dai and outputAssetB = dai and c = answering and amnt = 250] a m
  have one: "getAuxData dai dai dai dai = [Some (96 * 10 ^ 16)]
      \<and> (\<exists>u. getUnderlyingAmount answering dai 250 = Inr u \<and> amount u = 240)"
    using s by auto
  from minTokenOut_domain [where k = 3 and outputAssetA = unlisted and share = unlisted
      and inputAssetA = unlisted and inputAssetB = unlisted and outputAssetB = unlisted
      and c = answering and amnt = 250] a
  have three: "minTokenOut 3 = None
      \<and> getAuxData unlisted unlisted unlisted unlisted = [None]
      \<and> getUnderlyingAmount answering unlisted 250 = Inl TypeError"
    by simp
  show ?thesis using m one three by blast
qed

section \<open>Theorems: progress template\<close>

text \<open>
  C9: when ProgressTemplate renders its steps, the element at position i is made from step i,
  and exactly one of its four flags is true: done iff the step's status is less than
  currentStatus, failed iff it equals currentStatus and an error message is present
  (messageType is ERROR and message is a non-empty string), isLoading iff it equals
  currentStatus and no such error is present, inactive iff it is greater than currentStatus.
\<close>

theorem progress_flags_exactly_one:
  assumes "progressBlock p = ProgressList ts"
  shows "length ts = length (steps p)
    \<and> (\<forall>i < length ts.
         txText (ts ! i) = stepText (steps p ! i)
         \<and> flagCount (ts ! i) = 1
         \<and> (txDone (ts ! i) \<longleftrightarrow> stepStatus (steps p ! i) < currentStatus p)
         \<and> (txFailed (ts ! i) \<longleftrightarrow> stepStatus (steps p ! i) = currentStatus p
              \<and> propMessageType p = Some ERROR
              \<and> (\<exists>m. propMessage p = Some m \<and> m \<noteq> []))
         \<and> (txIsLoading (ts ! i) \<longleftrightarrow> stepStatus (steps p ! i) = currentStatus p
              \<and> \<not> (propMessageType p = Some ERROR
                    \<and> (\<exists>m. propMessage p = Some m \<and> m \<noteq> [])))
         \<and> (txInactive (ts ! i) \<longleftrightarrow> stepStatus (steps p ! i) > currentStatus p))"
proof -
  have ts: "ts = map (\<lambda>s. createProgress p (stepText s) (stepStatus s)) (steps p)"
    using assms by (simp add: progressBlock_def split: if_splits)
  have f: "failed p \<longleftrightarrow> propMessageType p = Some ERROR \<and> (\<exists>m. propMessage p = Some m \<and> m \<noteq> [])"
    by (auto simp: failed_def truthy_def split: option.splits)
  have one: "flagCount (createProgress p label st) = 1" for label st
    by (simp add: flagCount_def createProgress_def)
  show ?thesis
    unfolding ts using one f by (simp add: createProgress_def)
qed

theorem progress_flags_exactly_one_witness:
  "progressBlock migratePage =
     ProgressList (map (\<lambda>s. createProgress migratePage (stepText s) (stepStatus s))
                     (steps migratePage))
   \<and> flagCount (createProgress migratePage ''Validating'' 3) = 1
   \<and> txDone (createProgress migratePage ''Validating'' 3)
   \<and> txFailed (createProgress migratePage ''Migrating'' 4)
   \<and> \<not> txIsLoading (createProgress migratePage ''Migrating'' 4)
   \<and> txInactive (createProgress migratePage ''Done'' 5)"
proof -
  have b: "progressBlock migratePage =
     ProgressList (map (\<lambda>s. createProgress migratePage (stepText s) (stepStatus s))
                     (steps migratePage))"
    by (simp add: progressBlock_def success_def expired_def migratePage_def)
  have s: "steps migratePage = [\<lparr>stepStatus = 3, stepText = ''Validating''\<rparr>,
               \<lparr>stepStatus = 4, stepText = ''Migrating''\<rparr>,
               \<lparr>stepStatus = 5, stepText = ''Done''\<rparr>]"
    "currentStatus migratePage = 4" "propMessageType migratePage = Some ERROR"
    "propMessage migratePage = Some ''Something went wrong.''"
    by (simp_all add: migratePage_def)
  note t = progress_flags_exactly_one [OF b]
  from t have l: "\<forall>i<3. flagCount (map (\<lambda>s. createProgress migratePage (stepText s) (stepStatus s))
                     (steps migratePage) ! i) = 1
       \<and> (txDone (map (\<lambda>s. createProgress migratePage (stepText s) (stepStatus s))
                     (steps migratePage) ! i) \<longleftrightarrow> stepStatus (steps migratePage ! i) < 4)
       \<and> (txFailed (map (\<lambda>s. createProgress migratePage (stepText s) (stepStatus s))
                     (steps migratePage) ! i) \<longleftrightarrow> stepStatus (steps migratePage ! i) = 4)
       \<and> (txIsLoading (map (\<lambda>s. createProgress migratePage (stepText s) (stepStatus s))
                     (steps migratePage) ! i) \<longleftrightarrow> False)
       \<and> (txInactive (map (\<lambda>s. createProgress migratePage (stepText s) (stepStatus s))
                     (steps migratePage) ! i) \<longleftrightarrow> stepStatus (steps migratePage ! i) > 4)"
    by (simp add: s)
  from l [rule_format, of 0] l [rule_format, of 1] l [rule_format, of 2]
  show ?thesis using b by (simp add: s)
qed

section \<open>Lemmas: migration form\<close>

lemma foldl_plus_sum_list: "foldl (\<lambda>sum v. sum + v) (z::int) xs = z + sum_list xs"
  by (induction xs arbitrary: z) simp_all

lemma addMigrated_Nil [simp]: "addMigrated aid [] assets = assets"
  by (induction assets) (simp_all add: addMigrated_def)

lemma addMigrated_append: "addMigrated aid ws (addMigrated aid vs assets) = addMigrated aid (vs @ ws) assets"
  by (induction assets) (simp_all add: addMigrated_def)

lemma withAssets_id [simp]: "withAssets (val (migratingAssets (formValues st))) [] st = st"
  by (simp add: withAssets_def)

lemma withAssets_withAssets:
  "withAssets as2 new2 (withAssets as1 new1 st) = withAssets as2 (new1 @ new2) st"
  by (simp add: withAssets_def)

lemma updateMigratingAssets_eq:
  "updateMigratingAssets aid v (st\<lparr>effects := effects st @ new\<rparr>) =
     withAssets (addMigrated aid [v] (val (migratingAssets (formValues st)))) new st"
  by (simp add: updateMigratingAssets_def withAssets_def addMigrated_def updateFormValues_def
      mergeValues_def noChanges_def mergeInput_def)

lemma withAssets_fields [simp]:
  "destroyed (withAssets as new st) = destroyed st"
  "val (migratingAssets (formValues (withAssets as new st))) = as"
  "effects (withAssets as new st) = effects st @ new"
  "status (formValues (withAssets as new st)) = status (formValues st)"
  "formStatus (withAssets as new st) = formStatus st"
  "keyVault (withAssets as new st) = keyVault st"
  by (simp_all add: withAssets_def)

lemma recorded_simps [simp]:
  "recorded b [] = 0"
  "recorded b (es @ fs) = recorded b es + recorded b fs"
  "recorded b (TxRecorded a v # es) = (if a = b then 1 else 0) + recorded b es"
  "recorded b (ProofCreated a v f # es) = recorded b es"
  "recorded b (ProofSent a v # es) = recorded b es"
  "recorded b (AddedUser # es) = recorded b es"
  "recorded b (RemovedUser # es) = recorded b es"
  by (simp_all add: recorded_def)

lemma map_upt_shift: "f 0 # map (\<lambda>j. f (Suc j)) [0..<n] = map f [0..<Suc n]"
  by (simp add: map_upt_Suc del: upt_Suc)

lemma notesLoop_result:
  "notesLoop sdk asset i st = (fl, st') \<Longrightarrow>
   \<exists>n new. st' = withAssets (addMigrated (assetId asset) (map (\<lambda>j. amountAt asset (i + 2 * j)) [0..<n])
                            (val (migratingAssets (formValues st)))) new st
     \<and> (\<forall>b. recorded b new = (if b = assetId asset then n else 0))
     \<and> n \<le> (length (migratableValues asset) - i + 1) div 2
     \<and> (fl = Next \<longrightarrow> n = (length (migratableValues asset) - i + 1) div 2)
     \<and> (destroyed st \<longrightarrow> new = [])
     \<and> (length (migratableValues asset) \<le> i \<longrightarrow> new = [] \<and> fl = Next)
     \<and> (destroyed st \<and> i < length (migratableValues asset) \<longrightarrow> fl = Return)"
proof (induction sdk asset i st arbitrary: fl st' rule: notesLoop.induct)
  case (1 sdk asset i st)
  show ?case
  proof (cases "i < length (migratableValues asset)")
    case False
    then have "fl = Next" "st' = st"
      using "1.prems" by (simp_all add: notesLoop.simps)
    then show ?thesis using False
      by (intro exI [of _ 0] exI [of _ "[]"]) simp
  next
    case lt: True
    show ?thesis
    proof (cases "destroyed st")
      case True
      then have "fl = Return" "st' = st"
        using "1.prems" lt by (simp_all add: notesLoop.simps)
      then show ?thesis using lt True
        by (intro exI [of _ 0] exI [of _ "[]"]) simp
    next
      case nd: False
      define amt where "amt = amountAt asset i"
      have amt: "foldl (\<lambda>sum v. sum + v) 0 (take 2 (drop i (migratableValues asset))) - fee asset = amt"
        by (simp add: amt_def amountAt_def foldl_plus_sum_list)
      show ?thesis
      proof (cases "transfer sdk (assetId asset) i")
        case ProofRejected
        then have "fl = Throw" "st' = st"
          using "1.prems" lt nd by (simp_all add: notesLoop.simps)
        then show ?thesis using lt nd
          by (intro exI [of _ 0] exI [of _ "[]"]) simp
      next
        case SendRejected
        then have "fl = Throw"
          "st' = st\<lparr>effects := effects st @ [ProofCreated (assetId asset) amt (fee asset)]\<rparr>"
          using "1.prems" lt nd amt by (simp_all add: notesLoop.simps Let_def)
        then show ?thesis using lt nd
          by (intro exI [of _ 0] exI [of _ "[ProofCreated (assetId asset) amt (fee asset)]"])
            (simp add: withAssets_def)
      next
        case RecordRejected
        then have "fl = Throw"
          "st' = st\<lparr>effects := effects st @ [ProofCreated (assetId asset) amt (fee asset),
                                             ProofSent (assetId asset) amt]\<rparr>"
          using "1.prems" lt nd amt by (simp_all add: notesLoop.simps Let_def)
        then show ?thesis using lt nd
          by (intro exI [of _ 0] exI [of _ "[ProofCreated (assetId asset) amt (fee asset),
                                             ProofSent (assetId asset) amt]"])
            (simp add: withAssets_def)
      next
        case Completed
        define ev where "ev = [ProofCreated (assetId asset) amt (fee asset),
                               ProofSent (assetId asset) amt, TxRecorded (assetId asset) amt]"
        define st1 where "st1 = updateMigratingAssets (assetId asset) amt (st\<lparr>effects := effects st @ ev\<rparr>)"
        have st1: "st1 = withAssets (addMigrated (assetId asset) [amt] (val (migratingAssets (formValues st)))) ev st"
          unfolding st1_def by (rule updateMigratingAssets_eq)
        have rec: "notesLoop sdk asset (i + 2) st1 = (fl, st')"
          using "1.prems" lt nd amt Completed
          by (subst (asm) notesLoop.simps) (simp add: Let_def st1_def ev_def)
        from "1.IH" [OF lt nd refl Completed, of fl st'] rec amt
        obtain n new where
          a: "st' = withAssets (addMigrated (assetId asset) (map (\<lambda>j. amountAt asset (i + 2 + 2 * j)) [0..<n])
                            (val (migratingAssets (formValues st1)))) new st1"
          and b: "\<forall>b. recorded b new = (if b = assetId asset then n else 0)"
          and c: "n \<le> (length (migratableValues asset) - (i + 2) + 1) div 2"
          and d: "fl = Next \<longrightarrow> n = (length (migratableValues asset) - (i + 2) + 1) div 2"
          unfolding st1_def ev_def by auto
        have m: "amt # map (\<lambda>j. amountAt asset (i + 2 + 2 * j)) [0..<n]
                 = map (\<lambda>j. amountAt asset (i + 2 * j)) [0..<Suc n]"
          using map_upt_shift [of "\<lambda>j. amountAt asset (i + 2 * j)" n]
          by (simp add: amt_def del: upt_Suc)
        have e: "st' = withAssets (addMigrated (assetId asset) (map (\<lambda>j. amountAt asset (i + 2 * j)) [0..<Suc n])
                            (val (migratingAssets (formValues st)))) (ev @ new) st"
          unfolding a st1 withAssets_withAssets withAssets_fields addMigrated_append append.simps m ..
        have f: "\<forall>b. recorded b (ev @ new) = (if b = assetId asset then Suc n else 0)"
          using b by (simp add: ev_def)
        have g: "Suc n \<le> (length (migratableValues asset) - i + 1) div 2"
          using c lt by arith
        have h: "fl = Next \<longrightarrow> Suc n = (length (migratableValues asset) - i + 1) div 2"
          using d lt by arith
        show ?thesis
          using e f g h nd lt by (intro exI [of _ "Suc n"] exI [of _ "ev @ new"]) simp
      qed
    qed
  qed
qed

lemma notesLoop_frame:
  assumes "notesLoop sdk asset i st = (fl, st')"
  shows "\<exists>as new. st' = withAssets as new st
     \<and> (destroyed st \<longrightarrow> new = [] \<and> as = val (migratingAssets (formValues st)) \<and> fl \<noteq> Throw
           \<and> (fl = Return \<longleftrightarrow> i < length (migratableValues asset)))
     \<and> (length (migratableValues asset) \<le> i \<longrightarrow>
           new = [] \<and> as = val (migratingAssets (formValues st)) \<and> fl = Next)"
proof -
  from notesLoop_result [OF assms] obtain n new where
    a: "st' = withAssets (addMigrated (assetId asset) (map (\<lambda>j. amountAt asset (i + 2 * j)) [0..<n])
                            (val (migratingAssets (formValues st)))) new st"
    and b: "\<forall>b. recorded b new = (if b = assetId asset then n else 0)"
    and c: "destroyed st \<longrightarrow> new = []"
    and d: "length (migratableValues asset) \<le> i \<longrightarrow> new = [] \<and> fl = Next"
    and e: "destroyed st \<and> i < length (migratableValues asset) \<longrightarrow> fl = Return"
    by blast
  have n0: "new = [] \<Longrightarrow> n = 0"
    using b [rule_format, of "assetId asset"] by simp
  show ?thesis
    apply (rule exI [of _ "addMigrated (assetId asset) (map (\<lambda>j. amountAt asset (i + 2 * j)) [0..<n])
                            (val (migratingAssets (formValues st)))"])
    apply (rule exI [of _ new])
    using a c d e n0 by (auto simp: not_less)
qed

lemma assetsLoop_frame:
  "assetsLoop sdk rest st = (fl, st') \<Longrightarrow>
   \<exists>as new. st' = withAssets as new st
     \<and> (destroyed st \<longrightarrow> new = [] \<and> as = val (migratingAssets (formValues st)) \<and> fl \<noteq> Throw
           \<and> (fl = Return \<longleftrightarrow> (\<exists>r \<in> set rest. migratableValues r \<noteq> [])))
     \<and> ((\<forall>r \<in> set rest. migratableValues r = []) \<longrightarrow>
           new = [] \<and> as = val (migratingAssets (formValues st)) \<and> fl = Next)"
proof (induction rest arbitrary: st fl st')
  case Nil
  then show ?case
    by (intro exI [of _ "val (migratingAssets (formValues st))"] exI [of _ "[]"]) auto
next
  case (Cons r rest)
  obtain fl1 st1 where n: "notesLoop sdk r 0 st = (fl1, st1)"
    by (cases "notesLoop sdk r 0 st")
  from notesLoop_frame [OF n] obtain as1 new1 where
    a: "st1 = withAssets as1 new1 st"
    and b: "destroyed st \<longrightarrow> new1 = [] \<and> as1 = val (migratingAssets (formValues st)) \<and> fl1 \<noteq> Throw
           \<and> (fl1 = Return \<longleftrightarrow> 0 < length (migratableValues r))"
    and c: "length (migratableValues r) \<le> 0 \<longrightarrow>
           new1 = [] \<and> as1 = val (migratingAssets (formValues st)) \<and> fl1 = Next"
    by blast
  show ?case
  proof (cases "fl1 = Next")
    case False
    then have "fl = fl1" "st' = st1"
      using Cons.prems n by (cases fl1; simp)+
    then show ?thesis
      using a b c False by (intro exI [of _ as1] exI [of _ new1]) auto
  next
    case True
    then have r: "assetsLoop sdk rest st1 = (fl, st')"
      using Cons.prems n by simp
    from Cons.IH [OF r] obtain as2 new2 where
      d: "st' = withAssets as2 new2 st1"
      and e: "destroyed st1 \<longrightarrow> new2 = [] \<and> as2 = val (migratingAssets (formValues st1)) \<and> fl \<noteq> Throw
           \<and> (fl = Return \<longleftrightarrow> (\<exists>r \<in> set rest. migratableValues r \<noteq> []))"
      and f: "(\<forall>r \<in> set rest. migratableValues r = []) \<longrightarrow>
           new2 = [] \<and> as2 = val (migratingAssets (formValues st1)) \<and> fl = Next"
      by blast
    have g: "st' = withAssets as2 (new1 @ new2) st"
      unfolding d a by (rule withAssets_withAssets)
    show ?thesis
      using g a b c e f True by (intro exI [of _ as2] exI [of _ "new1 @ new2"]) auto
  qed
qed

lemma migratedBy_Nil [simp]: "migratedBy rest [] a = []"
  by (simp add: migratedBy_def split: option.splits)

lemma find_absent:
  "assetId a \<notin> assetId ` set rest \<Longrightarrow> find (\<lambda>x. assetId x = assetId a) rest = None"
  by (induction rest) auto

lemma assetsLoop_result:
  "assetsLoop sdk rest st = (fl, st') \<Longrightarrow> distinct (map assetId rest) \<Longrightarrow>
   \<exists>new. st' = withAssets (map (\<lambda>a. a\<lparr>migratedValues := migratedValues a @ migratedBy rest new a\<rparr>)
                            (val (migratingAssets (formValues st)))) new st
     \<and> (\<forall>b. b \<notin> assetId ` set rest \<longrightarrow> recorded b new = 0)
     \<and> (\<forall>r \<in> set rest. recorded (assetId r) new \<le> (length (migratableValues r) + 1) div 2)
     \<and> (fl = Next \<longrightarrow> (\<forall>r \<in> set rest. recorded (assetId r) new = (length (migratableValues r) + 1) div 2))"
proof (induction rest arbitrary: st fl st')
  case Nil
  then show ?case
    by (intro exI [of _ "[]"]) simp
next
  case (Cons r rest)
  have dist: "distinct (map assetId rest)" and notin: "assetId r \<notin> assetId ` set rest"
    using Cons.prems(2) by auto
  obtain fl1 st1 where n: "notesLoop sdk r 0 st = (fl1, st1)"
    by (cases "notesLoop sdk r 0 st")
  from notesLoop_result [OF n] obtain k new1 where
    a: "st1 = withAssets (addMigrated (assetId r) (map (\<lambda>j. amountAt r (2 * j)) [0..<k])
                            (val (migratingAssets (formValues st)))) new1 st"
    and b: "\<forall>b. recorded b new1 = (if b = assetId r then k else 0)"
    and c: "k \<le> (length (migratableValues r) + 1) div 2"
    and d: "fl1 = Next \<longrightarrow> k = (length (migratableValues r) + 1) div 2"
    by auto
  obtain fl2 st2 where fs: "(fl2, st2) = (if fl1 = Next then assetsLoop sdk rest st1 else (fl1, st1))"
    by (cases "if fl1 = Next then assetsLoop sdk rest st1 else (fl1, st1)") auto
  have res: "fl = fl2" "st' = st2"
    using Cons.prems(1) n fs by (cases fl1; simp)+
  have "\<exists>new2. st2 = withAssets (map (\<lambda>a. a\<lparr>migratedValues := migratedValues a @ migratedBy rest new2 a\<rparr>)
                            (val (migratingAssets (formValues st1)))) new2 st1
     \<and> (\<forall>b. b \<notin> assetId ` set rest \<longrightarrow> recorded b new2 = 0)
     \<and> (\<forall>r \<in> set rest. recorded (assetId r) new2 \<le> (length (migratableValues r) + 1) div 2)
     \<and> (fl2 = Next \<longrightarrow> fl1 = Next \<and> (\<forall>r \<in> set rest. recorded (assetId r) new2 = (length (migratableValues r) + 1) div 2))"
  proof (cases "fl1 = Next")
    case True
    then have "assetsLoop sdk rest st1 = (fl2, st2)" using fs by simp
    from Cons.IH [OF this dist] True show ?thesis by blast
  next
    case False
    then have "fl2 = fl1" "st2 = st1" using fs by simp_all
    then show ?thesis using False
      by (intro exI [of _ "[]"]) simp
  qed
  then obtain new2 where
    e: "st2 = withAssets (map (\<lambda>a. a\<lparr>migratedValues := migratedValues a @ migratedBy rest new2 a\<rparr>)
                            (val (migratingAssets (formValues st1)))) new2 st1"
    and f: "\<forall>b. b \<notin> assetId ` set rest \<longrightarrow> recorded b new2 = 0"
    and g: "\<forall>r \<in> set rest. recorded (assetId r) new2 \<le> (length (migratableValues r) + 1) div 2"
    and h: "fl2 = Next \<longrightarrow> fl1 = Next \<and> (\<forall>r \<in> set rest. recorded (assetId r) new2 = (length (migratableValues r) + 1) div 2)"
    by blast
  have r2: "recorded (assetId r) new2 = 0"
    using f notin by blast
  have ne: "\<forall>x \<in> set rest. assetId x \<noteq> assetId r"
    using notin by (metis image_eqI)
  have each: "(\<lambda>a. a\<lparr>migratedValues := migratedValues a @ migratedBy rest new2 a\<rparr>)
                ((\<lambda>a. if assetId a \<noteq> assetId r then a
                       else a\<lparr>migratedValues := migratedValues a @ map (\<lambda>j. amountAt r (2 * j)) [0..<k]\<rparr>) a)
              = a\<lparr>migratedValues := migratedValues a @ migratedBy (r # rest) (new1 @ new2) a\<rparr>" for a
  proof (cases "assetId a = assetId r")
    case True
    then have "find (\<lambda>x. assetId x = assetId a) rest = None"
      using notin find_absent [of a rest] by simp
    then show ?thesis
      using True b r2 by (simp add: migratedBy_def)
  next
    case False
    then have "recorded (assetId a) new1 = 0" using b by simp
    then show ?thesis
      using False by (auto simp: migratedBy_def split: option.splits)
  qed
  have lst: "map (\<lambda>a. a\<lparr>migratedValues := migratedValues a @ migratedBy rest new2 a\<rparr>)
               (addMigrated (assetId r) (map (\<lambda>j. amountAt r (2 * j)) [0..<k])
                            (val (migratingAssets (formValues st))))
             = map (\<lambda>a. a\<lparr>migratedValues := migratedValues a @ migratedBy (r # rest) (new1 @ new2) a\<rparr>)
                 (val (migratingAssets (formValues st)))"
    unfolding addMigrated_def map_map comp_def using each by simp
  have st2: "st2 = withAssets (map (\<lambda>a. a\<lparr>migratedValues := migratedValues a @ migratedBy (r # rest) (new1 @ new2) a\<rparr>)
                 (val (migratingAssets (formValues st)))) (new1 @ new2) st"
    unfolding e a withAssets_withAssets withAssets_fields lst ..
  have p1: "\<forall>b. b \<notin> assetId ` set (r # rest) \<longrightarrow> recorded b (new1 @ new2) = 0"
    using b f by simp
  have p2: "\<forall>x \<in> set (r # rest). recorded (assetId x) (new1 @ new2) \<le> (length (migratableValues x) + 1) div 2"
    using b c g r2 ne by simp
  have p3: "fl2 = Next \<longrightarrow> (\<forall>x \<in> set (r # rest). recorded (assetId x) (new1 @ new2) = (length (migratableValues x) + 1) div 2)"
    using b d h r2 ne by simp
  show ?case
    unfolding res using st2 p1 p2 p3 by (intro exI [of _ "new1 @ new2"]) blast
qed

lemma setStatus_fields [simp]:
  "status (formValues (setStatus s st)) = s"
  "migratingAssets (formValues (setStatus s st)) = migratingAssets (formValues st)"
  "submit (formValues (setStatus s st)) = submit (formValues st)"
  "formStatus (setStatus s st) = formStatus st"
  "destroyed (setStatus s st) = destroyed st"
  "keyVault (setStatus s st) = keyVault st"
  "provider (setStatus s st) = provider st"
  "effects (setStatus s st) = effects st"
  by (simp_all add: setStatus_def updateFormValues_def mergeValues_def noChanges_def)

lemma setStatus_withAssets:
  "setStatus s (withAssets as new st) = withAssets as new (setStatus s st)"
  by (simp add: setStatus_def withAssets_def updateFormValues_def mergeValues_def noChanges_def)

lemma setStatus_setStatus [simp]: "setStatus s (setStatus t st) = setStatus s st"
  by (simp add: setStatus_def updateFormValues_def mergeValues_def noChanges_def)

lemma withAssets_more_fields [simp]:
  "provider (withAssets as new st) = provider st"
  "submit (formValues (withAssets as new st)) = submit (formValues st)"
  "message (migratingAssets (formValues (withAssets as new st))) = message (migratingAssets (formValues st))"
  "messageType (migratingAssets (formValues (withAssets as new st))) = messageType (migratingAssets (formValues st))"
  by (simp_all add: withAssets_def)

lemma withAssets_effects: "withAssets as [] (st\<lparr>effects := effects st @ new\<rparr>) = withAssets as new st"
  by (simp add: withAssets_def)

lemma updateFormValues_fields [simp]:
  "formValues (updateFormValues c st) = mergeValues (formValues st) c"
  "formStatus (updateFormValues c st) = formStatus st"
  "destroyed (updateFormValues c st) = destroyed st"
  "keyVault (updateFormValues c st) = keyVault st"
  "provider (updateFormValues c st) = provider st"
  "effects (updateFormValues c st) = effects st"
  by (simp_all add: updateFormValues_def)

lemma updateFormStatus_fields [simp]:
  "formValues (updateFormStatus s st) = formValues st"
  "formStatus (updateFormStatus s st) = s"
  "destroyed (updateFormStatus s st) = destroyed st"
  "keyVault (updateFormStatus s st) = keyVault st"
  "provider (updateFormStatus s st) = provider st"
  "effects (updateFormStatus s st) = effects st"
  by (simp_all add: updateFormStatus_def)

lemma migrateNotes_alt:
  "migrateNotes sdk st =
     (if \<not> keyVault st then (Thrown, setStatus MIGRATE st)
      else (case assetsLoop sdk (val (migratingAssets (formValues st))) (setStatus MIGRATE st) of
              (Throw, st2) \<Rightarrow> (Thrown, st2)
            | (Return, st2) \<Rightarrow> (Returned, st2)
            | (Next, st2) \<Rightarrow>
                if \<not> removeUser sdk then (Thrown, st2)
                else (Returned, setStatus DONE (st2\<lparr>effects := effects st2 @ [RemovedUser]\<rparr>))))"
  unfolding migrateNotes_def setStatus_def Let_def
  by (simp add: mergeValues_def noChanges_def)

text \<open>The shape of every result of migrateNotes.\<close>

lemma migrateNotes_cases:
  obtains (novault) "\<not> keyVault st" "migrateNotes sdk st = (Thrown, setStatus MIGRATE st)"
  | (stopped) fl as new where "keyVault st" "fl \<noteq> Next"
      "assetsLoop sdk (val (migratingAssets (formValues st))) (setStatus MIGRATE st) = (fl, withAssets as new (setStatus MIGRATE st))"
      "migrateNotes sdk st = (if fl = Throw then Thrown else Returned, withAssets as new (setStatus MIGRATE st))"
  | (noremove) as new where "keyVault st" "\<not> removeUser sdk"
      "assetsLoop sdk (val (migratingAssets (formValues st))) (setStatus MIGRATE st) = (Next, withAssets as new (setStatus MIGRATE st))"
      "migrateNotes sdk st = (Thrown, withAssets as new (setStatus MIGRATE st))"
  | (finished) as new where "keyVault st" "removeUser sdk"
      "assetsLoop sdk (val (migratingAssets (formValues st))) (setStatus MIGRATE st) = (Next, withAssets as new (setStatus MIGRATE st))"
      "migrateNotes sdk st = (Returned, withAssets as (new @ [RemovedUser]) (setStatus DONE st))"
proof (cases "keyVault st")
  case False
  then have "migrateNotes sdk st = (Thrown, setStatus MIGRATE st)"
    by (simp add: migrateNotes_alt)
  with False show ?thesis by (rule novault)
next
  case kv: True
  obtain fl st2 where l: "assetsLoop sdk (val (migratingAssets (formValues st))) (setStatus MIGRATE st) = (fl, st2)"
    by (cases "assetsLoop sdk (val (migratingAssets (formValues st))) (setStatus MIGRATE st)")
  from assetsLoop_frame [OF l] obtain as new where st2: "st2 = withAssets as new (setStatus MIGRATE st)"
    by blast
  have m: "migrateNotes sdk st =
      (case (fl, st2) of (Throw, s) \<Rightarrow> (Thrown, s) | (Return, s) \<Rightarrow> (Returned, s)
       | (Next, s) \<Rightarrow> if \<not> removeUser sdk then (Thrown, s)
            else (Returned, setStatus DONE (s\<lparr>effects := effects s @ [RemovedUser]\<rparr>)))"
    using kv l by (simp add: migrateNotes_alt)
  show ?thesis
  proof (cases "fl = Next")
    case False
    then have "migrateNotes sdk st = (if fl = Throw then Thrown else Returned, withAssets as new (setStatus MIGRATE st))"
      using m st2 by (cases fl) simp_all
    with kv False l [unfolded st2] show ?thesis by (rule stopped)
  next
    case nx: True
    show ?thesis
    proof (cases "removeUser sdk")
      case False
      then have "migrateNotes sdk st = (Thrown, withAssets as new (setStatus MIGRATE st))"
        using m st2 nx by simp
      with kv False l [unfolded st2 nx] show ?thesis by (rule noremove)
    next
      case True
      have "setStatus DONE (st2\<lparr>effects := effects st2 @ [RemovedUser]\<rparr>)
            = withAssets as (new @ [RemovedUser]) (setStatus DONE st)"
        unfolding st2
        by (simp add: setStatus_def withAssets_def updateFormValues_def mergeValues_def noChanges_def)
      then have "migrateNotes sdk st = (Returned, withAssets as (new @ [RemovedUser]) (setStatus DONE st))"
        using m nx True by simp
      with kv True l [unfolded st2 nx] show ?thesis by (rule finished)
    qed
  qed
qed

lemma migrateNotes_frame:
  "\<exists>as new s. snd (migrateNotes sdk st) = withAssets as new (setStatus s st) \<and> (s = MIGRATE \<or> s = DONE)"
proof (cases rule: migrateNotes_cases [of st sdk])
  case novault
  then show ?thesis
    by (intro exI [of _ "val (migratingAssets (formValues st))"] exI [of _ "[]"] exI [of _ MIGRATE])
       (simp add: withAssets_def)
next
  case (stopped fl as new)
  then show ?thesis by (intro exI [of _ as] exI [of _ new] exI [of _ MIGRATE]) simp
next
  case (noremove as new)
  then show ?thesis by (intro exI [of _ as] exI [of _ new] exI [of _ MIGRATE]) simp
next
  case (finished as new)
  then show ?thesis by (intro exI [of _ as] exI [of _ "new @ [RemovedUser]"] exI [of _ DONE]) simp
qed

lemma find_self:
  "distinct (map assetId xs) \<Longrightarrow> a \<in> set xs \<Longrightarrow> find (\<lambda>r. assetId r = assetId a) xs = Some a"
proof (induction xs)
  case Nil
  then show ?case by simp
next
  case (Cons x xs)
  show ?case
  proof (cases "a = x")
    case True
    then show ?thesis by simp
  next
    case False
    then have ax: "a \<in> set xs" using Cons.prems(2) by simp
    then have "assetId x \<noteq> assetId a"
      using Cons.prems(1) by (metis distinct.simps(2) image_eqI list.simps(9) set_map)
    then show ?thesis using Cons.IH ax Cons.prems(1) by simp
  qed
qed

lemma withAssets_inject:
  "withAssets as new st = withAssets as' new' st \<Longrightarrow> as = as' \<and> new = new'"
proof -
  assume e: "withAssets as new st = withAssets as' new' st"
  have "val (migratingAssets (formValues (withAssets as new st))) = val (migratingAssets (formValues (withAssets as' new' st)))"
    "effects (withAssets as new st) = effects (withAssets as' new' st)"
    using e by simp_all
  then show ?thesis by simp
qed

lemma migrated_from_empty:
  assumes d: "distinct (map assetId assets)"
    and e: "\<forall>a \<in> set assets. migratedValues a = []"
  shows "map (\<lambda>a. a\<lparr>migratedValues := migratedValues a @ migratedBy assets new a\<rparr>) assets
       = map (\<lambda>a. a\<lparr>migratedValues :=
                       map (\<lambda>j. sum_list (take 2 (drop (2 * j) (migratableValues a))) - fee a)
                         [0..<recorded (assetId a) new]\<rparr>) assets"
proof (rule map_cong [OF refl])
  fix a assume a: "a \<in> set assets"
  have "migratedBy assets new a = map (\<lambda>j. amountAt a (2 * j)) [0..<recorded (assetId a) new]"
    using find_self [OF d a] by (simp add: migratedBy_def)
  then show "a\<lparr>migratedValues := migratedValues a @ migratedBy assets new a\<rparr>
       = a\<lparr>migratedValues :=
                       map (\<lambda>j. sum_list (take 2 (drop (2 * j) (migratableValues a))) - fee a)
                         [0..<recorded (assetId a) new]\<rparr>"
    using e a by (simp add: amountAt_def)
qed

lemma assetsLoop_from_empty:
  assumes l: "assetsLoop sdk assets st = (fl, withAssets as new st)"
    and v: "val (migratingAssets (formValues st)) = assets"
    and d: "distinct (map assetId assets)"
    and e: "\<forall>a \<in> set assets. migratedValues a = []"
  shows "as = map (\<lambda>a. a\<lparr>migratedValues :=
                       map (\<lambda>j. sum_list (take 2 (drop (2 * j) (migratableValues a))) - fee a)
                         [0..<recorded (assetId a) new]\<rparr>) assets
       \<and> (\<forall>a \<in> set assets. recorded (assetId a) new \<le> (length (migratableValues a) + 1) div 2)"
proof -
  from assetsLoop_result [OF l d] obtain new' where
    a: "withAssets as new st = withAssets (map (\<lambda>a. a\<lparr>migratedValues := migratedValues a @ migratedBy assets new' a\<rparr>)
                            (val (migratingAssets (formValues st)))) new' st"
    and b: "\<forall>r \<in> set assets. recorded (assetId r) new' \<le> (length (migratableValues r) + 1) div 2"
    by blast
  from withAssets_inject [OF a] have "new = new'"
    and "as = map (\<lambda>a. a\<lparr>migratedValues := migratedValues a @ migratedBy assets new' a\<rparr>) assets"
    using v by simp_all
  then show ?thesis
    using b migrated_from_empty [OF d e, of new] by simp
qed

lemma getMigratableValues_two: "getMigratableValues [5, 3] 1 = [5, 3]"
  by (simp add: getMigratableValues_def getMigratableValues_loop.simps)

lemma syncAsset_wallet: "syncAsset wallet \<lparr>assetId = 0, fee = 0, totalFee = 0, noteValues = [],
              migratableValues = [], migratedValues = []\<rparr> = Some \<lparr>assetId = 0, fee = 1, totalFee = 1, noteValues = [5, 3],
              migratableValues = [5, 3], migratedValues = []\<rparr>"
  by (simp add: syncAsset_def wallet_def twoNotes_def unitFee_def getMigratableValues_two Let_def)

lemma synced_eq:
  "synced = \<lparr>formValues =
       \<lparr>migratingAssets = \<lparr>val = [\<lparr>assetId = 0, fee = 1, totalFee = 1, noteValues = [5, 3],
              migratableValues = [5, 3], migratedValues = []\<rparr>], message = None, messageType = None\<rparr>,
        status = CONFIRM,
        submit = \<lparr>val = True,
          message = Some ''To check the balances in your old account, please sign the following hash in your wallet: 0xa1b2c3...e5f6'',
          messageType = Some WARNING\<rparr>\<rparr>,
     formStatus = LOCKED, destroyed = False, keyVault = True, provider = Some ''0x52a1'',
     effects = [AddedUser]\<rparr>"
  unfolding synced_def init_def onProviderStateChange_def
  by (simp add: freshForm_def newMigrateForm_def initialMigrateFormValues_def  syncBalance_def syncAsset_wallet
  updateFormValues_def updateFormStatus_def mergeValues_def
  mergeInput_def noChanges_def literal_def clearMessage_def withError_def withWarning_def
  prompt_def promptMessage_def Let_def) (simp add: wallet_def)

lemma fundedAsset_fields [simp]:
  "assetId fundedAsset = 0" "fee fundedAsset = 1" "migratableValues fundedAsset = [5, 3]"
  "migratedValues fundedAsset = []"
  by (simp_all add: fundedAsset_def)

lemma notesLoop_funded_completes:
  assumes "\<not> destroyed st" "transfer sdk 0 0 = Completed"
  shows "notesLoop sdk fundedAsset 0 st =
     (Next, updateMigratingAssets 0 7
              (st\<lparr>effects := effects st @ [ProofCreated 0 7 1, ProofSent 0 7, TxRecorded 0 7]\<rparr>))"
  apply (subst notesLoop.simps)
  apply (simp add: assms Let_def)
  apply (subst notesLoop.simps)
  apply simp
  done

lemma notesLoop_funded_rejects:
  assumes "\<not> destroyed st" "transfer sdk 0 0 = SendRejected"
  shows "notesLoop sdk fundedAsset 0 st =
     (Throw, st\<lparr>effects := effects st @ [ProofCreated 0 7 1]\<rparr>)"
  apply (subst notesLoop.simps)
  apply (simp add: assms Let_def)
  done

lemmas form_defs = updateFormValues_def updateFormStatus_def mergeValues_def
  mergeInput_def noChanges_def literal_def clearMessage_def withError_def withWarning_def
  processing_def validateValues_def isValidForm_def asChanges_def updateMigratingAssets_def

lemma submit_synced_status:
  "status (formValues (snd (MigrateForm_submit wallet synced))) = DONE"
  "map migratableValues (val (migratingAssets (formValues (snd (MigrateForm_submit wallet synced))))) = [[5, 3]]"
  "map migratedValues (val (migratingAssets (formValues (snd (MigrateForm_submit wallet synced))))) = [[7]]"
  unfolding synced_eq fundedAsset_def [symmetric] MigrateForm_submit_def migrateNotes_def
  by (simp_all add: form_defs Let_def notesLoop_funded_completes wallet_def unitFee_def completes_def)

lemma validating_fields [simp]:
  "status (formValues (validating st)) = VALIDATE"
  "migratingAssets (formValues (validating st)) = migratingAssets (formValues st)"
  "submit (formValues (validating st)) = \<lparr>val = True, message = None, messageType = None\<rparr>"
  "formStatus (validating st) = PROCESSING"
  "destroyed (validating st) = destroyed st"
  "keyVault (validating st) = keyVault st"
  "provider (validating st) = provider st"
  "effects (validating st) = effects st"
  by (simp_all add: validating_def mergeValues_def noChanges_def mergeInput_def clearMessage_def
      literal_def)

lemma validateLoop_exceeds:
  "j < length as \<Longrightarrow> \<forall>k \<le> j. getFee sdk (assetId (as ! k)) \<noteq> None \<Longrightarrow>
   getFee sdk (assetId (as ! j)) = Some f \<Longrightarrow> f > fee (as ! j) \<Longrightarrow>
   validateLoop sdk as form
     = Some (form\<lparr>migratingAssets := withError (migratingAssets form) ''Insufficient fee.''\<rparr>)"
proof (induction as arbitrary: j)
  case Nil
  then show ?case by simp
next
  case (Cons a as)
  show ?case
  proof (cases j)
    case 0
    then show ?thesis using Cons.prems by simp
  next
    case (Suc j')
    obtain f0 where f0: "getFee sdk (assetId a) = Some f0"
      using Cons.prems(2) [rule_format, of 0] by auto
    have "\<forall>k \<le> j'. getFee sdk (assetId (as ! k)) \<noteq> None"
      using Cons.prems(2) Suc by auto
    from Cons.IH [OF _ this] Cons.prems Suc
    have "validateLoop sdk as form
       = Some (form\<lparr>migratingAssets := withError (migratingAssets form) ''Insufficient fee.''\<rparr>)"
      by simp
    then show ?thesis using f0 by simp
  qed
qed

lemma validateLoop_passes:
  "\<forall>a \<in> set as. \<exists>f. getFee sdk (assetId a) = Some f \<and> f \<le> fee a \<Longrightarrow>
   validateLoop sdk as form = Some form"
  by (induction as) auto

lemma validateLoop_cases:
  "validateLoop sdk as form = None \<or> validateLoop sdk as form = Some form
   \<or> validateLoop sdk as form
        = Some (form\<lparr>migratingAssets := withError (migratingAssets form) ''Insufficient fee.''\<rparr>)"
  by (induction as) (auto split: option.splits)

lemma validateValues_cases:
  "validateValues sdk st = None \<or> validateValues sdk st = Some (formValues st)
   \<or> validateValues sdk st
        = Some ((formValues st)\<lparr>migratingAssets :=
             withError (migratingAssets (formValues st)) ''Insufficient fee.''\<rparr>)"
  unfolding validateValues_def Let_def by (rule validateLoop_cases)

lemma submit_alt:
  "MigrateForm_submit sdk st =
     (if processing st then (Returned, st)
      else case validateValues sdk (validating st) of
             None \<Rightarrow> (Thrown, validating st)
           | Some validated \<Rightarrow>
               if \<not> isValidForm validated
               then (Returned,
                     updateFormStatus LOCKED
                       (updateFormValues
                          (asChanges
                             (mergeValues validated
                                (noChanges\<lparr>statusC := Some CONFIRM,
                                           submitC := Some (AllKeys (clearMessage (literal False)))\<rparr>)))
                          (validating st)))
               else (case migrateNotes sdk (validating st) of
                       (Returned, st3) \<Rightarrow> (Returned, updateFormStatus LOCKED st3)
                     | (Thrown, st3) \<Rightarrow>
                         (Returned,
                          updateFormStatus LOCKED
                            (updateFormValues
                               (noChanges\<lparr>submitC := Some (AllKeys (withError (literal False)
                                  ''Something went wrong. This shouldn't happen.''))\<rparr>)
                               st3))))"
  unfolding MigrateForm_submit_def validating_def Let_def ..

lemma submit_refused:
  assumes "\<not> processing st"
    and "validateValues sdk (validating st)
          = Some ((formValues (validating st))\<lparr>migratingAssets :=
                withError (migratingAssets (formValues (validating st))) ''Insufficient fee.''\<rparr>)"
  shows "MigrateForm_submit sdk st = (Returned, refused st)"
  using assms
  by (simp add: submit_alt isValidForm_def withError_def refused_def asChanges_def mergeValues_def
      noChanges_def mergeInput_def clearMessage_def literal_def updateFormValues_def
      updateFormStatus_def validating_def)

lemma submit_stale_error:
  assumes "\<not> processing st"
    and "validateValues sdk (validating st) = Some (formValues (validating st))"
    and "messageType (migratingAssets (formValues st)) = Some ERROR"
  shows "MigrateForm_submit sdk st =
     (Returned, st\<lparr>formValues := (formValues st)\<lparr>status := CONFIRM,
           submit := \<lparr>val = False, message = None, messageType = None\<rparr>\<rparr>, formStatus := LOCKED\<rparr>)"
  using assms
  by (simp add: submit_alt isValidForm_def asChanges_def mergeValues_def
      noChanges_def mergeInput_def clearMessage_def literal_def updateFormValues_def
      updateFormStatus_def validating_def)

lemma submit_passed:
  assumes "\<not> processing st"
    and "validateValues sdk (validating st) = Some (formValues (validating st))"
    and "messageType (migratingAssets (formValues st)) \<noteq> Some ERROR"
  shows "MigrateForm_submit sdk st =
     (case migrateNotes sdk (validating st) of
        (Returned, st3) \<Rightarrow> (Returned, updateFormStatus LOCKED st3)
      | (Thrown, st3) \<Rightarrow>
          (Returned,
           updateFormStatus LOCKED
             (updateFormValues
                (noChanges\<lparr>submitC := Some (AllKeys (withError (literal False)
                   ''Something went wrong. This shouldn't happen.''))\<rparr>)
                st3)))"
  using assms by (simp add: submit_alt isValidForm_def)

lemma submit_status:
  "status (formValues (snd (MigrateForm_submit sdk st)))
     \<in> {status (formValues st), CONFIRM, VALIDATE, MIGRATE, DONE}"
proof (cases "processing st")
  case True
  then show ?thesis by (simp add: submit_alt)
next
  case np: False
  show ?thesis
    using validateValues_cases [of sdk "validating st"]
  proof (elim disjE)
    assume "validateValues sdk (validating st) = None"
    then show ?thesis using np by (simp add: submit_alt)
  next
    assume error: "validateValues sdk (validating st)
          = Some ((formValues (validating st))\<lparr>migratingAssets :=
                withError (migratingAssets (formValues (validating st))) ''Insufficient fee.''\<rparr>)"
    from submit_refused [OF np error] show ?thesis by (simp add: refused_def)
  next
    assume same: "validateValues sdk (validating st) = Some (formValues (validating st))"
    show ?thesis
    proof (cases "messageType (migratingAssets (formValues st)) = Some ERROR")
      case True
      from submit_stale_error [OF np same True] show ?thesis by simp
    next
      case False
      obtain c st3 where m: "migrateNotes sdk (validating st) = (c, st3)"
        by (cases "migrateNotes sdk (validating st)")
      from migrateNotes_frame [of sdk "validating st"] m
      have "status (formValues st3) = MIGRATE \<or> status (formValues st3) = DONE"
        by auto
      then show ?thesis
        using submit_passed [OF np same False] m
        by (cases c) (auto simp: mergeValues_def noChanges_def)
    qed
  qed
qed

lemma syncBalance_status:
  "status (formValues (snd (syncBalance sdk st))) \<in> {SYNC, CONFIRM}"
  by (simp add: syncBalance_def Let_def mergeValues_def noChanges_def split: option.splits)

lemma init_status:
  "status (formValues (init sdk st)) \<in> {status (formValues st), SYNC, CONFIRM}"
proof (cases "status (formValues st) = CONNECT \<and> provider st \<noteq> None \<and> createV0 sdk \<and> \<not> destroyed st")
  case False
  then show ?thesis
    by (auto simp: init_def onProviderStateChange_def Let_def prompt_def mergeValues_def noChanges_def)
next
  case True
  obtain c st4 where s: "syncBalance sdk ((prompt (promptMessage (signingMessageV0 sdk))
      (updateFormValues (noChanges\<lparr>submitC := Some (AllKeys (clearMessage (literal False)))\<rparr>) st))\<lparr>keyVault := True\<rparr>) = (c, st4)"
    by (cases "syncBalance sdk ((prompt (promptMessage (signingMessageV0 sdk))
      (updateFormValues (noChanges\<lparr>submitC := Some (AllKeys (clearMessage (literal False)))\<rparr>) st))\<lparr>keyVault := True\<rparr>)")
  from syncBalance_status [of sdk "(prompt (promptMessage (signingMessageV0 sdk))
      (updateFormValues (noChanges\<lparr>submitC := Some (AllKeys (clearMessage (literal False)))\<rparr>) st))\<lparr>keyVault := True\<rparr>"] s
  have "status (formValues st4) = SYNC \<or> status (formValues st4) = CONFIRM" by simp
  then show ?thesis
    using True s
    by (cases c) (auto simp: init_def onProviderStateChange_def Let_def prompt_def mergeValues_def noChanges_def)
qed

lemma noFunds_iff: "noFunds st \<longleftrightarrow> (\<forall>a \<in> set (val (migratingAssets (formValues st))). migratableValues a = [])"
  by (simp add: noFunds_def list_ex_iff)

lemma migrateNotes_noFunds:
  assumes "noFunds st"
  shows "val (migratingAssets (formValues (snd (migrateNotes sdk st)))) = val (migratingAssets (formValues st))
     \<and> filter isProof (effects (snd (migrateNotes sdk st))) = filter isProof (effects st)"
proof -
  have e: "\<forall>r \<in> set (val (migratingAssets (formValues st))). migratableValues r = []"
    using assms by (simp add: noFunds_iff)
  have loop: "as = val (migratingAssets (formValues st)) \<and> new = []"
    if "assetsLoop sdk (val (migratingAssets (formValues st))) (setStatus MIGRATE st)
          = (fl, withAssets as new (setStatus MIGRATE st))" for fl as new
  proof -
    from assetsLoop_frame [OF that] e obtain as' new' where
      a: "withAssets as new (setStatus MIGRATE st) = withAssets as' new' (setStatus MIGRATE st)"
      and b: "new' = []" "as' = val (migratingAssets (formValues (setStatus MIGRATE st)))"
      by blast
    from withAssets_inject [OF a] b show ?thesis by simp
  qed
  show ?thesis
  proof (cases rule: migrateNotes_cases [of st sdk])
    case novault
    then show ?thesis by simp
  next
    case (stopped fl as new)
    from loop [OF stopped(3)] stopped(4) show ?thesis by simp
  next
    case (noremove as new)
    from loop [OF noremove(3)] noremove(4) show ?thesis by simp
  next
    case (finished as new)
    from loop [OF finished(3)] finished(4) show ?thesis by simp
  qed
qed

lemma submit_noFunds:
  assumes "noFunds st"
  shows "val (migratingAssets (formValues (snd (MigrateForm_submit sdk st)))) = val (migratingAssets (formValues st))
     \<and> filter isProof (effects (snd (MigrateForm_submit sdk st))) = filter isProof (effects st)"
proof (cases "processing st")
  case True
  then show ?thesis by (simp add: submit_alt)
next
  case np: False
  show ?thesis
    using validateValues_cases [of sdk "validating st"]
  proof (elim disjE)
    assume "validateValues sdk (validating st) = None"
    then show ?thesis using np by (simp add: submit_alt)
  next
    assume error: "validateValues sdk (validating st)
          = Some ((formValues (validating st))\<lparr>migratingAssets :=
                withError (migratingAssets (formValues (validating st))) ''Insufficient fee.''\<rparr>)"
    from submit_refused [OF np error] show ?thesis by (simp add: refused_def withError_def)
  next
    assume same: "validateValues sdk (validating st) = Some (formValues (validating st))"
    show ?thesis
    proof (cases "messageType (migratingAssets (formValues st)) = Some ERROR")
      case True
      from submit_stale_error [OF np same True] show ?thesis by simp
    next
      case False
      obtain c st3 where m: "migrateNotes sdk (validating st) = (c, st3)"
        by (cases "migrateNotes sdk (validating st)")
      have "noFunds (validating st)" using assms by (simp add: noFunds_def)
      from migrateNotes_noFunds [OF this, of sdk] m
      have "val (migratingAssets (formValues st3)) = val (migratingAssets (formValues st))"
        "filter isProof (effects st3) = filter isProof (effects st)"
        by simp_all
      then show ?thesis
        using submit_passed [OF np same False] m
        by (cases c) (simp_all add: mergeValues_def noChanges_def)
    qed
  qed
qed

lemma call_noFunds:
  assumes "noFunds st" "status (formValues st) \<noteq> CONNECT" "quiet c"
  shows "noFunds (call c st) \<and> status (formValues (call c st)) \<noteq> CONNECT
     \<and> filter isProof (effects (call c st)) = filter isProof (effects st)"
proof (cases c)
  case (Init sdk)
  then show ?thesis using assms by (simp add: init_def onProviderStateChange_def)
next
  case (ChangeProvider p sdk)
  then show ?thesis using assms by (simp add: changeProvider_def)
next
  case (ChangeValues changes)
  have k: "keepsNoFunds changes" using assms(3) ChangeValues by simp
  show ?thesis
  proof (cases "locked st")
    case True
    then show ?thesis using ChangeValues assms by (simp add: changeValues_def)
  next
    case False
    have a: "noFunds (updateFormValues changes st)"
    proof (cases "migratingAssetsC changes")
      case None
      then show ?thesis
        using assms(1) by (simp add: noFunds_def updateFormValues_def mergeValues_def)
    next
      case (Some c)
      then have "\<not> list_ex (\<lambda>a. length (migratableValues a) \<noteq> 0) (changed c)"
        using k by (simp add: keepsNoFunds_def)
      then show ?thesis
        using Some
        by (cases c) (simp_all add: noFunds_def updateFormValues_def mergeValues_def mergeInput_def)
    qed
    have b: "status (formValues (updateFormValues changes st)) \<noteq> CONNECT"
      using k assms(2)
      by (cases "statusC changes") (simp_all add: keepsNoFunds_def updateFormValues_def mergeValues_def)
    have c: "effects (updateFormValues changes st) = effects st"
      by (simp add: updateFormValues_def)
    show ?thesis using ChangeValues False a b c by (simp add: changeValues_def)
  qed
next
  case Unlock
  then show ?thesis using assms by (simp add: unlock_def noFunds_def)
next
  case Lock
  then show ?thesis using assms by (simp add: lock_def noFunds_def)
next
  case (Submit sdk)
  have "status (formValues (snd (MigrateForm_submit sdk st))) \<noteq> CONNECT"
    using submit_status [of sdk st] assms(2) by auto
  then show ?thesis
    using Submit submit_noFunds [OF assms(1), of sdk] assms(1) by (simp add: noFunds_def)
next
  case Destroy
  then show ?thesis using assms by (simp add: destroy_def noFunds_def)
qed

lemma session_noFunds:
  "noFunds st \<Longrightarrow> status (formValues st) \<noteq> CONNECT \<Longrightarrow> list_all quiet cs \<Longrightarrow>
   filter isProof (effects (session cs st)) = filter isProof (effects st)"
proof (induction cs arbitrary: st)
  case Nil
  then show ?case by (simp add: session_def)
next
  case (Cons c cs)
  from Cons.prems(3) have q: "quiet c" "list_all quiet cs" by simp_all
  from call_noFunds [OF Cons.prems(1,2) q(1)] Cons.IH [of "call c st", OF _ _ q(2)]
  show ?case by (simp add: session_def)
qed

lemma those_map_Some:
  "\<forall>x \<in> set xs. f x \<noteq> None \<Longrightarrow> \<exists>ys. those (map f xs) = Some ys"
  by (induction xs) auto

lemma synced_fields:
  "val (migratingAssets (formValues synced)) = [fundedAsset]"
  "messageType (migratingAssets (formValues synced)) = None"
  "status (formValues synced) = CONFIRM"
  "formStatus synced = LOCKED" "\<not> destroyed synced" "keyVault synced"
  "effects synced = [AddedUser]"
  by (simp_all add: synced_eq fundedAsset_def)

lemma wallet_fields:
  "getFee wallet a = Some 1" "transfer wallet a i = Completed" "removeUser wallet"
  "getFee dearerWallet a = Some 2" "transfer dearerWallet a i = Completed" "removeUser dearerWallet"
  "getFee failingWallet a = Some 1" "transfer failingWallet a i = SendRejected"
  "getFee emptyWallet a = Some 1" "removeUser emptyWallet"
  by (simp_all add: wallet_def dearerWallet_def failingWallet_def emptyWallet_def unitFee_def
      raisedFee_def completes_def sendRejects_def)

lemma stuck_fields:
  "val (migratingAssets (formValues stuck)) = [fundedAsset]"
  "messageType (migratingAssets (formValues stuck)) = None"
  "status (formValues stuck) = MIGRATE"
  "formStatus stuck = LOCKED"
  "effects stuck = [AddedUser, ProofCreated 0 7 1]"
  unfolding stuck_def MigrateForm_submit_def migrateNotes_def
  by (simp_all add: synced_fields wallet_fields form_defs Let_def notesLoop_funded_rejects)

lemma rejected_fields:
  "val (migratingAssets (formValues rejected)) = [fundedAsset]"
  "messageType (migratingAssets (formValues rejected)) = Some ERROR"
  "message (migratingAssets (formValues rejected)) = Some ''Insufficient fee.''"
  "status (formValues rejected) = CONFIRM"
  "formStatus rejected = LOCKED"
  "effects rejected = [AddedUser]"
  unfolding rejected_def MigrateForm_submit_def
  by (simp_all add: synced_fields wallet_fields form_defs Let_def)

lemma getMigratableValues_Nil: "getMigratableValues [] f = []"
  by (simp add: getMigratableValues_def getMigratableValues_loop.simps)

lemma syncAsset_emptyWallet:
  "syncAsset emptyWallet \<lparr>assetId = 0, fee = 0, totalFee = 0, noteValues = [],
       migratableValues = [], migratedValues = []\<rparr>
     = Some \<lparr>assetId = 0, fee = 1, totalFee = 0, noteValues = [],
              migratableValues = [], migratedValues = []\<rparr>"
  by (simp add: syncAsset_def emptyWallet_def wallet_def noNotes_def unitFee_def
      getMigratableValues_Nil Let_def)

lemma syncedEmpty_fields:
  "map migratableValues (val (migratingAssets (formValues syncedEmpty))) = [[]]"
  "messageType (migratingAssets (formValues syncedEmpty)) = None"
  "status (formValues syncedEmpty) = CONFIRM"
  "formStatus syncedEmpty = LOCKED" "keyVault syncedEmpty"
  "effects syncedEmpty = [AddedUser, RemovedUser]"
  "\<not> destroyed syncedEmpty"
  unfolding syncedEmpty_def init_def onProviderStateChange_def
  by (simp_all add: freshForm_def newMigrateForm_def initialMigrateFormValues_def syncBalance_def
      syncAsset_emptyWallet form_defs prompt_def Let_def)
    (simp_all add: emptyWallet_def wallet_def)

lemma gone_fields:
  "map migratableValues (val (migratingAssets (formValues gone))) = [[]]"
  "messageType (migratingAssets (formValues gone)) = None"
  "formStatus gone = LOCKED" "keyVault gone" "destroyed gone"
  "effects gone = [AddedUser, RemovedUser]"
  by (simp_all add: gone_def destroy_def processing_def syncedEmpty_fields)

lemma emptyAsset_fields [simp]:
  "assetId emptyAsset = 0" "fee emptyAsset = 1" "migratableValues emptyAsset = []"
  "migratedValues emptyAsset = []"
  by (simp_all add: emptyAsset_def)

lemma notesLoop_emptyAsset: "notesLoop sdk emptyAsset i st = (Next, st)"
  by (subst notesLoop.simps) simp

lemma syncedEmpty_assets: "val (migratingAssets (formValues syncedEmpty)) = [emptyAsset]"
  unfolding syncedEmpty_def init_def onProviderStateChange_def
  by (simp add: freshForm_def newMigrateForm_def initialMigrateFormValues_def syncBalance_def
      syncAsset_emptyWallet form_defs prompt_def Let_def emptyAsset_def)
    (simp add: emptyWallet_def wallet_def)

lemma gone_assets: "val (migratingAssets (formValues gone)) = [emptyAsset]"
  by (simp add: gone_def destroy_def processing_def syncedEmpty_fields syncedEmpty_assets)

lemma goneFunded_fields:
  "val (migratingAssets (formValues goneFunded)) = [fundedAsset]" "destroyed goneFunded"
  "effects goneFunded = [AddedUser]"
  by (simp_all add: goneFunded_def destroy_def processing_def synced_fields)

lemma unlockedForm_fields:
  "keyVault unlockedForm" "effects unlockedForm = []"
  "val (migratingAssets (formValues unlockedForm))
     = [\<lparr>assetId = 0, fee = 0, totalFee = 0, noteValues = [],
          migratableValues = [], migratedValues = []\<rparr>]"
  by (simp_all add: unlockedForm_def freshForm_def newMigrateForm_def initialMigrateFormValues_def
      literal_def)

lemma syncBalance_unlockedForm:
  "noFunds (snd (syncBalance emptyWallet unlockedForm))"
  by (simp add: noFunds_def syncBalance_def unlockedForm_fields syncAsset_emptyWallet
      form_defs Let_def)

lemma syncedAssets_unlockedForm:
  "syncedAssets wallet unlockedForm = Some [fundedAsset]"
  by (simp add: syncedAssets_def unlockedForm_fields syncAsset_wallet fundedAsset_def)

section \<open>Theorems: migration form\<close>

text \<open>
  C1 does not hold as stated. The form \<open>stuck\<close> is reached from a new form by \<open>init\<close> and
  a \<open>submit\<close> whose transfer is rejected, and is at MIGRATE. The next \<open>submit\<close> first
  writes VALIDATE, then finds that the fee has gone up and leaves the form at CONFIRM, two
  members earlier.
\<close>

theorem status_moves_back_counterexample:
  "status (formValues stuck) = MIGRATE
   \<and> status (formValues (validating stuck)) = VALIDATE
   \<and> status (formValues (snd (MigrateForm_submit dearerWallet stuck))) = CONFIRM
   \<and> ordinal (status (formValues (snd (MigrateForm_submit dearerWallet stuck))))
       < ordinal (status (formValues stuck))"
  unfolding MigrateForm_submit_def
  by (simp add: stuck_fields wallet_fields form_defs Let_def)

text \<open>
  C1, amended: the status never moves to an earlier member of CONNECT, SYNC, CONFIRM, VALIDATE,
  MIGRATE, DONE under init (onProviderStateChange), under syncBalance entered at CONNECT or
  SYNC, and under migrateNotes entered at MIGRATE or before; under submit it does not when
  the old status is at most CONFIRM. Whatever the old status, submit ends in the old status
  (a duplicate call), in CONFIRM (the validation failed), in VALIDATE (getFee rejected), in
  MIGRATE or in DONE.
\<close>

theorem status_forward_except_submit:
  "ordinal (status (formValues st)) \<le> ordinal (status (formValues (init sdk st)))
   \<and> (ordinal (status (formValues st)) \<le> ordinal SYNC \<longrightarrow>
        ordinal (status (formValues st)) \<le> ordinal (status (formValues (snd (syncBalance sdk st)))))
   \<and> (ordinal (status (formValues st)) \<le> ordinal MIGRATE \<longrightarrow>
        ordinal (status (formValues st)) \<le> ordinal (status (formValues (snd (migrateNotes sdk st)))))
   \<and> (ordinal (status (formValues st)) \<le> ordinal CONFIRM \<longrightarrow>
        ordinal (status (formValues st))
          \<le> ordinal (status (formValues (snd (MigrateForm_submit sdk st)))))
   \<and> status (formValues (snd (MigrateForm_submit sdk st)))
        \<in> {status (formValues st), CONFIRM, VALIDATE, MIGRATE, DONE}"
proof -
  have i: "ordinal (status (formValues st)) \<le> ordinal (status (formValues (init sdk st)))"
  proof (cases "status (formValues st) = CONNECT")
    case True
    then show ?thesis by simp
  next
    case False
    then show ?thesis by (simp add: init_def onProviderStateChange_def)
  qed
  have s: "ordinal (status (formValues st)) \<le> ordinal SYNC \<longrightarrow>
        ordinal (status (formValues st)) \<le> ordinal (status (formValues (snd (syncBalance sdk st))))"
    using syncBalance_status [of sdk st] by auto
  from migrateNotes_frame [of sdk st]
  have "status (formValues (snd (migrateNotes sdk st))) = MIGRATE
      \<or> status (formValues (snd (migrateNotes sdk st))) = DONE"
    by auto
  then have m: "ordinal (status (formValues st)) \<le> ordinal MIGRATE \<longrightarrow>
        ordinal (status (formValues st)) \<le> ordinal (status (formValues (snd (migrateNotes sdk st))))"
    by auto
  have u: "ordinal (status (formValues st)) \<le> ordinal CONFIRM \<longrightarrow>
        ordinal (status (formValues st))
          \<le> ordinal (status (formValues (snd (MigrateForm_submit sdk st))))"
    using submit_status [of sdk st] by auto
  show ?thesis using i s m u submit_status [of sdk st] by blast
qed

text \<open>
  The theorem of C1 at a new form and at the synchronised form, which is at CONFIRM and which
  submit takes to DONE.
\<close>

theorem status_forward_except_submit_witness:
  "ordinal (status (formValues freshForm)) \<le> ordinal (status (formValues (init wallet freshForm)))
   \<and> ordinal (status (formValues synced)) \<le> ordinal CONFIRM
   \<and> ordinal (status (formValues synced))
        \<le> ordinal (status (formValues (snd (MigrateForm_submit wallet synced))))
   \<and> status (formValues (snd (MigrateForm_submit wallet synced))) = DONE"
  using status_forward_except_submit [of freshForm wallet]
    status_forward_except_submit [of synced wallet]
  by (simp add: synced_fields submit_synced_status)

text \<open>
  C2 does not hold as stated. The form \<open>rejected\<close> is reached by a \<open>submit\<close> that found the
  fee raised, so its \<open>migratingAssets\<close> carries the error. At the next \<open>submit\<close> the current
  fee 1 is not above the stored fee 1, yet the form is left at CONFIRM and nothing is sent:
  the error of the earlier call still makes the form invalid, and migrateNotes, which would
  have left another status, is not called.
\<close>

theorem stale_error_counterexample:
  "\<not> processing rejected
   \<and> map fee (val (migratingAssets (formValues rejected))) = [1]
   \<and> map (getFee wallet) (map assetId (val (migratingAssets (formValues rejected)))) = [Some 1]
   \<and> status (formValues (snd (MigrateForm_submit wallet rejected))) = CONFIRM
   \<and> effects (snd (MigrateForm_submit wallet rejected)) = effects rejected
   \<and> status (formValues (snd (migrateNotes wallet (validating rejected)))) \<noteq> CONFIRM"
proof -
  have "status (formValues (snd (migrateNotes wallet (validating rejected)))) \<noteq> CONFIRM"
    using migrateNotes_frame [of wallet "validating rejected"] by auto
  moreover have "\<not> processing rejected
   \<and> map fee (val (migratingAssets (formValues rejected))) = [1]
   \<and> map (getFee wallet) (map assetId (val (migratingAssets (formValues rejected)))) = [Some 1]
   \<and> status (formValues (snd (MigrateForm_submit wallet rejected))) = CONFIRM
   \<and> effects (snd (MigrateForm_submit wallet rejected)) = effects rejected"
    unfolding MigrateForm_submit_def
    by (simp add: rejected_fields wallet_fields form_defs Let_def)
  ultimately show ?thesis by blast
qed

text \<open>
  C2, amended: in a call of submit that is not a duplicate, if the validation comes to an
  asset whose current fee (the answer of sdk.getFee) is greater than its stored fee, then
  submit attaches the message "Insufficient fee." to migratingAssets as an error, sets the
  status back to CONFIRM and submit to false, locks the form, and creates and sends no proof.
  If every current fee is at most the stored fee and migratingAssets carries no error from an
  earlier call, the validation passes and migrateNotes is invoked: submit returns the form
  migrateNotes leaves, locked, with the failure message on submit when migrateNotes threw.
\<close>

theorem submit_validation:
  assumes "\<not> processing st"
  shows "((\<exists>j < length (val (migratingAssets (formValues st))).
             (\<forall>k \<le> j. getFee sdk (assetId (val (migratingAssets (formValues st)) ! k)) \<noteq> None)
             \<and> (\<exists>f. getFee sdk (assetId (val (migratingAssets (formValues st)) ! j)) = Some f
                   \<and> f > fee (val (migratingAssets (formValues st)) ! j))) \<longrightarrow>
          (\<exists>st'. MigrateForm_submit sdk st = (Returned, st')
             \<and> message (migratingAssets (formValues st')) = Some ''Insufficient fee.''
             \<and> messageType (migratingAssets (formValues st')) = Some ERROR
             \<and> val (migratingAssets (formValues st')) = val (migratingAssets (formValues st))
             \<and> status (formValues st') = CONFIRM
             \<and> val (submit (formValues st')) = False
             \<and> formStatus st' = LOCKED
             \<and> effects st' = effects st))
    \<and> ((\<forall>a \<in> set (val (migratingAssets (formValues st))).
             \<exists>f. getFee sdk (assetId a) = Some f \<and> f \<le> fee a)
         \<and> messageType (migratingAssets (formValues st)) \<noteq> Some ERROR \<longrightarrow>
          (\<exists>c st3. migrateNotes sdk (validating st) = (c, st3)
             \<and> (status (formValues st3) = MIGRATE \<or> status (formValues st3) = DONE)
             \<and> MigrateForm_submit sdk st =
                 (Returned,
                  updateFormStatus LOCKED
                    (if c = Thrown
                     then updateFormValues
                            (noChanges\<lparr>submitC := Some (AllKeys (withError (literal False)
                               ''Something went wrong. This shouldn't happen.''))\<rparr>) st3
                     else st3))))"
proof (intro conjI impI)
  assume "\<exists>j < length (val (migratingAssets (formValues st))).
             (\<forall>k \<le> j. getFee sdk (assetId (val (migratingAssets (formValues st)) ! k)) \<noteq> None)
             \<and> (\<exists>f. getFee sdk (assetId (val (migratingAssets (formValues st)) ! j)) = Some f
                   \<and> f > fee (val (migratingAssets (formValues st)) ! j))"
  then obtain j f where j: "j < length (val (migratingAssets (formValues st)))"
    "\<forall>k \<le> j. getFee sdk (assetId (val (migratingAssets (formValues st)) ! k)) \<noteq> None"
    "getFee sdk (assetId (val (migratingAssets (formValues st)) ! j)) = Some f"
    "f > fee (val (migratingAssets (formValues st)) ! j)"
    by blast
  have "validateValues sdk (validating st)
          = Some ((formValues (validating st))\<lparr>migratingAssets :=
                withError (migratingAssets (formValues (validating st))) ''Insufficient fee.''\<rparr>)"
    unfolding validateValues_def Let_def
    using validateLoop_exceeds [OF j, of "formValues (validating st)"] by simp
  from submit_refused [OF assms this]
  show "\<exists>st'. MigrateForm_submit sdk st = (Returned, st')
             \<and> message (migratingAssets (formValues st')) = Some ''Insufficient fee.''
             \<and> messageType (migratingAssets (formValues st')) = Some ERROR
             \<and> val (migratingAssets (formValues st')) = val (migratingAssets (formValues st))
             \<and> status (formValues st') = CONFIRM
             \<and> val (submit (formValues st')) = False
             \<and> formStatus st' = LOCKED
             \<and> effects st' = effects st"
    by (simp add: refused_def withError_def)
next
  assume a: "(\<forall>a \<in> set (val (migratingAssets (formValues st))).
             \<exists>f. getFee sdk (assetId a) = Some f \<and> f \<le> fee a)
         \<and> messageType (migratingAssets (formValues st)) \<noteq> Some ERROR"
  have v: "validateValues sdk (validating st) = Some (formValues (validating st))"
    unfolding validateValues_def Let_def
    using validateLoop_passes [of "val (migratingAssets (formValues st))" sdk "formValues (validating st)"] a
    by simp
  obtain c st3 where m: "migrateNotes sdk (validating st) = (c, st3)"
    by (cases "migrateNotes sdk (validating st)")
  from migrateNotes_frame [of sdk "validating st"] m
  have s: "status (formValues st3) = MIGRATE \<or> status (formValues st3) = DONE"
    by auto
  have "MigrateForm_submit sdk st =
                 (Returned,
                  updateFormStatus LOCKED
                    (if c = Thrown
                     then updateFormValues
                            (noChanges\<lparr>submitC := Some (AllKeys (withError (literal False)
                               ''Something went wrong. This shouldn't happen.''))\<rparr>) st3
                     else st3))"
    using submit_passed [OF assms v] a m by (cases c) simp_all
  then show "\<exists>c st3. migrateNotes sdk (validating st) = (c, st3)
             \<and> (status (formValues st3) = MIGRATE \<or> status (formValues st3) = DONE)
             \<and> MigrateForm_submit sdk st =
                 (Returned,
                  updateFormStatus LOCKED
                    (if c = Thrown
                     then updateFormValues
                            (noChanges\<lparr>submitC := Some (AllKeys (withError (literal False)
                               ''Something went wrong. This shouldn't happen.''))\<rparr>) st3
                     else st3))"
    using m s by blast
qed

text \<open>
  The theorem of C2 at the synchronised form: with the fee raised to 2, and with the fee 1.
\<close>

theorem submit_validation_witness:
  "\<not> processing synced
   \<and> getFee dearerWallet (assetId (val (migratingAssets (formValues synced)) ! 0)) = Some 2
   \<and> 2 > fee (val (migratingAssets (formValues synced)) ! 0)
   \<and> (\<exists>st'. MigrateForm_submit dearerWallet synced = (Returned, st')
         \<and> message (migratingAssets (formValues st')) = Some ''Insufficient fee.''
         \<and> status (formValues st') = CONFIRM \<and> val (submit (formValues st')) = False
         \<and> formStatus st' = LOCKED \<and> effects st' = effects synced)
   \<and> getFee wallet (assetId (val (migratingAssets (formValues synced)) ! 0)) = Some 1
   \<and> 1 \<le> fee (val (migratingAssets (formValues synced)) ! 0)
   \<and> (\<exists>c st3. migrateNotes wallet (validating synced) = (c, st3)
         \<and> (status (formValues st3) = MIGRATE \<or> status (formValues st3) = DONE)
         \<and> fst (MigrateForm_submit wallet synced) = Returned)"
proof -
  have np: "\<not> processing synced"
    by (simp add: processing_def synced_fields)
  have hi: "\<exists>j < length (val (migratingAssets (formValues synced))).
             (\<forall>k \<le> j. getFee dearerWallet (assetId (val (migratingAssets (formValues synced)) ! k)) \<noteq> None)
             \<and> (\<exists>f. getFee dearerWallet (assetId (val (migratingAssets (formValues synced)) ! j)) = Some f
                   \<and> f > fee (val (migratingAssets (formValues synced)) ! j))"
    by (simp add: synced_fields wallet_fields)
  have lo: "(\<forall>a \<in> set (val (migratingAssets (formValues synced))).
             \<exists>f. getFee wallet (assetId a) = Some f \<and> f \<le> fee a)
         \<and> messageType (migratingAssets (formValues synced)) \<noteq> Some ERROR"
    by (simp add: synced_fields wallet_fields)
  from submit_validation [OF np, of dearerWallet] hi
  have a: "\<exists>st'. MigrateForm_submit dearerWallet synced = (Returned, st')
         \<and> message (migratingAssets (formValues st')) = Some ''Insufficient fee.''
         \<and> status (formValues st') = CONFIRM \<and> val (submit (formValues st')) = False
         \<and> formStatus st' = LOCKED \<and> effects st' = effects synced"
    by blast
  from submit_validation [OF np, of wallet] lo
  have b: "\<exists>c st3. migrateNotes wallet (validating synced) = (c, st3)
         \<and> (status (formValues st3) = MIGRATE \<or> status (formValues st3) = DONE)
         \<and> fst (MigrateForm_submit wallet synced) = Returned"
    by auto
  show ?thesis
    using np a b by (simp add: synced_fields wallet_fields)
qed

text \<open>
  C3 does not hold as stated. After the synchronised form has migrated its two notes 5 and 3
  with the fee 1, the migrated values are the single amount 7, which is not a subsequence
  of the migratable values 5, 3.
\<close>

theorem migrated_amount_counterexample:
  "map migratableValues (val (migratingAssets (formValues (snd (MigrateForm_submit wallet synced))))) = [[5, 3]]
   \<and> map migratedValues (val (migratingAssets (formValues (snd (MigrateForm_submit wallet synced))))) = [[7]]
   \<and> \<not> subseq [7] [5, 3 :: int]"
  by (simp add: submit_synced_status)

text \<open>
  C3, amended: in a run of migrateNotes that starts with distinct asset ids and no migrated
  value (as syncBalance leaves the form), however the transfers end, the migrated values of each
  asset are the amounts of the first n pairs of its migratable values, in order, where the
  amount of a pair is its sum less the fee and n is the number of transfers of that asset
  that were sent and recorded; n is at most the number of pairs. So one entry is appended for
  each completed transfer, and after the n-th there are exactly n. The form at a point of
  the migration is the form the run ends with when the next transfer is rejected, so the
  statement covers every point.
\<close>

theorem migratedValues_are_net_amounts:
  assumes d: "distinct (map assetId (val (migratingAssets (formValues st))))"
    and e: "\<forall>a \<in> set (val (migratingAssets (formValues st))). migratedValues a = []"
  shows "\<exists>new. effects (snd (migrateNotes sdk st)) = effects st @ new
     \<and> val (migratingAssets (formValues (snd (migrateNotes sdk st)))) =
         map (\<lambda>a. a\<lparr>migratedValues :=
                       map (\<lambda>j. sum_list (take 2 (drop (2 * j) (migratableValues a))) - fee a)
                         [0..<recorded (assetId a) new]\<rparr>)
           (val (migratingAssets (formValues st)))
     \<and> (\<forall>a \<in> set (val (migratingAssets (formValues st))).
           recorded (assetId a) new \<le> (length (migratableValues a) + 1) div 2)"
proof -
  define assets where "assets = val (migratingAssets (formValues st))"
  have v: "val (migratingAssets (formValues (setStatus MIGRATE st))) = assets"
    by (simp add: assets_def)
  note d' = d [folded assets_def] and e' = e [folded assets_def]
  have same: "map (\<lambda>a. a\<lparr>migratedValues :=
                       map (\<lambda>j. sum_list (take 2 (drop (2 * j) (migratableValues a))) - fee a)
                         [0..<recorded (assetId a) []]\<rparr>) assets = assets"
    using e' by (induction assets) simp_all
  show ?thesis
    unfolding assets_def [symmetric]
  proof (cases rule: migrateNotes_cases [of st sdk])
    case novault
    then show "\<exists>new. effects (snd (migrateNotes sdk st)) = effects st @ new
     \<and> val (migratingAssets (formValues (snd (migrateNotes sdk st)))) =
         map (\<lambda>a. a\<lparr>migratedValues :=
                       map (\<lambda>j. sum_list (take 2 (drop (2 * j) (migratableValues a))) - fee a)
                         [0..<recorded (assetId a) new]\<rparr>) assets
     \<and> (\<forall>a \<in> set assets. recorded (assetId a) new \<le> (length (migratableValues a) + 1) div 2)"
      using same by (intro exI [of _ "[]"]) (simp add: assets_def)
  next
    case (stopped fl as new)
    from assetsLoop_from_empty [OF stopped(3) [folded assets_def] v d' e'] stopped(4)
    show "\<exists>new. effects (snd (migrateNotes sdk st)) = effects st @ new
     \<and> val (migratingAssets (formValues (snd (migrateNotes sdk st)))) =
         map (\<lambda>a. a\<lparr>migratedValues :=
                       map (\<lambda>j. sum_list (take 2 (drop (2 * j) (migratableValues a))) - fee a)
                         [0..<recorded (assetId a) new]\<rparr>) assets
     \<and> (\<forall>a \<in> set assets. recorded (assetId a) new \<le> (length (migratableValues a) + 1) div 2)"
      by (intro exI [of _ new]) simp
  next
    case (noremove as new)
    from assetsLoop_from_empty [OF noremove(3) [folded assets_def] v d' e'] noremove(4)
    show "\<exists>new. effects (snd (migrateNotes sdk st)) = effects st @ new
     \<and> val (migratingAssets (formValues (snd (migrateNotes sdk st)))) =
         map (\<lambda>a. a\<lparr>migratedValues :=
                       map (\<lambda>j. sum_list (take 2 (drop (2 * j) (migratableValues a))) - fee a)
                         [0..<recorded (assetId a) new]\<rparr>) assets
     \<and> (\<forall>a \<in> set assets. recorded (assetId a) new \<le> (length (migratableValues a) + 1) div 2)"
      by (intro exI [of _ new]) simp
  next
    case (finished as new)
    from assetsLoop_from_empty [OF finished(3) [folded assets_def] v d' e'] finished(4)
    show "\<exists>new. effects (snd (migrateNotes sdk st)) = effects st @ new
     \<and> val (migratingAssets (formValues (snd (migrateNotes sdk st)))) =
         map (\<lambda>a. a\<lparr>migratedValues :=
                       map (\<lambda>j. sum_list (take 2 (drop (2 * j) (migratableValues a))) - fee a)
                         [0..<recorded (assetId a) new]\<rparr>) assets
     \<and> (\<forall>a \<in> set assets. recorded (assetId a) new \<le> (length (migratableValues a) + 1) div 2)"
      by (intro exI [of _ "new @ [RemovedUser]"]) simp
  qed
qed

text \<open>
  The theorem of C3 at the synchronised form.
\<close>

theorem migratedValues_are_net_amounts_witness:
  "distinct (map assetId (val (migratingAssets (formValues synced))))
   \<and> map migratedValues (val (migratingAssets (formValues synced))) = [[]]
   \<and> (\<exists>new. effects (snd (migrateNotes wallet synced)) = effects synced @ new
         \<and> map migratedValues (val (migratingAssets (formValues (snd (migrateNotes wallet synced)))))
             = [map (\<lambda>j. sum_list (take 2 (drop (2 * j) [5, 3])) - 1) [0..<recorded 0 new]]
         \<and> recorded 0 new \<le> 1)"
proof -
  have d: "distinct (map assetId (val (migratingAssets (formValues synced))))"
    and e: "\<forall>a \<in> set (val (migratingAssets (formValues synced))). migratedValues a = []"
    by (simp_all add: synced_fields)
  from migratedValues_are_net_amounts [OF d e, of wallet]
  show ?thesis
    by (auto simp: synced_fields)
qed

text \<open>
  C4 does not hold as stated. The form \<open>gone\<close> has no migratable note and was destroyed.
  \<open>submit\<close> then runs migrateNotes, whose loops have no pair to test the flag before: the
  previous-generation user is removed and the status becomes DONE.
\<close>

theorem destroyed_finishes_counterexample:
  "destroyed gone
   \<and> status (formValues (snd (MigrateForm_submit emptyWallet gone))) = DONE
   \<and> effects (snd (MigrateForm_submit emptyWallet gone)) = effects gone @ [RemovedUser]"
  unfolding MigrateForm_submit_def migrateNotes_def
  by (simp add: gone_fields gone_assets wallet_fields form_defs Let_def notesLoop_emptyAsset)

text \<open>
  C4, amended: migrateNotes tests the destroyed flag before each pair of migratable notes, and
  on a destroyed form the loop returns at once from any pair, with the form unchanged. So on
  a destroyed form no proof is created or sent; when some asset has a migratable note the
  user is not removed and the status stays MIGRATE; when no asset has one the flag is never
  tested, the user is removed and the status becomes DONE.
\<close>

theorem destroyed_stops_migration:
  assumes "destroyed st"
  shows "(i < length (migratableValues asset) \<longrightarrow> notesLoop sdk asset i st = (Return, st))
    \<and> ((\<exists>a \<in> set (val (migratingAssets (formValues st))). migratableValues a \<noteq> []) \<longrightarrow>
          snd (migrateNotes sdk st) = setStatus MIGRATE st)
    \<and> ((\<forall>a \<in> set (val (migratingAssets (formValues st))). migratableValues a = [])
          \<and> keyVault st \<and> removeUser sdk \<longrightarrow>
          migrateNotes sdk st
            = (Returned, setStatus DONE (st\<lparr>effects := effects st @ [RemovedUser]\<rparr>)))
    \<and> filter isProof (effects (snd (migrateNotes sdk st))) = filter isProof (effects st)"
proof -
  have one: "i < length (migratableValues asset) \<longrightarrow> notesLoop sdk asset i st = (Return, st)"
    using assms by (simp add: notesLoop.simps)
  have d: "destroyed (setStatus MIGRATE st)" using assms by simp
  have loop: "as = val (migratingAssets (formValues st)) \<and> new = [] \<and> fl \<noteq> Throw
      \<and> (fl = Return \<longleftrightarrow> (\<exists>r \<in> set (val (migratingAssets (formValues st))). migratableValues r \<noteq> []))"
    if "assetsLoop sdk (val (migratingAssets (formValues st))) (setStatus MIGRATE st)
          = (fl, withAssets as new (setStatus MIGRATE st))" for fl as new
  proof -
    from assetsLoop_frame [OF that] d obtain as' new' where
      a: "withAssets as new (setStatus MIGRATE st) = withAssets as' new' (setStatus MIGRATE st)"
      and b: "new' = []" "as' = val (migratingAssets (formValues (setStatus MIGRATE st)))" "fl \<noteq> Throw"
        "fl = Return \<longleftrightarrow> (\<exists>r \<in> set (val (migratingAssets (formValues st))). migratableValues r \<noteq> [])"
      by blast
    from withAssets_inject [OF a] b show ?thesis by simp
  qed
  have wid: "withAssets (val (migratingAssets (formValues st))) [] (setStatus s st) = setStatus s st" for s
    using withAssets_id [of "setStatus s st"] by simp
  have all: "((\<exists>a \<in> set (val (migratingAssets (formValues st))). migratableValues a \<noteq> []) \<longrightarrow>
          snd (migrateNotes sdk st) = setStatus MIGRATE st)
    \<and> ((\<forall>a \<in> set (val (migratingAssets (formValues st))). migratableValues a = [])
          \<and> keyVault st \<and> removeUser sdk \<longrightarrow>
          migrateNotes sdk st
            = (Returned, setStatus DONE (st\<lparr>effects := effects st @ [RemovedUser]\<rparr>)))
    \<and> filter isProof (effects (snd (migrateNotes sdk st))) = filter isProof (effects st)"
  proof (cases rule: migrateNotes_cases [of st sdk])
    case novault
    then show ?thesis by simp
  next
    case (stopped fl as new)
    from loop [OF stopped(3)] stopped(2) have "as = val (migratingAssets (formValues st))" "new = []"
      "fl = Return" "\<exists>r \<in> set (val (migratingAssets (formValues st))). migratableValues r \<noteq> []"
      by (cases fl; simp)+
    then show ?thesis using stopped(4) wid by auto
  next
    case (noremove as new)
    from loop [OF noremove(3)] have "as = val (migratingAssets (formValues st))" "new = []"
      "\<forall>r \<in> set (val (migratingAssets (formValues st))). migratableValues r = []"
      by simp_all
    then show ?thesis using noremove(2,4) wid by auto
  next
    case (finished as new)
    from loop [OF finished(3)] have "as = val (migratingAssets (formValues st))" "new = []"
      "\<forall>r \<in> set (val (migratingAssets (formValues st))). migratableValues r = []"
      by simp_all
    moreover have "withAssets (val (migratingAssets (formValues st))) [RemovedUser] (setStatus DONE st)
         = setStatus DONE (st\<lparr>effects := effects st @ [RemovedUser]\<rparr>)"
      by (simp add: withAssets_def setStatus_def updateFormValues_def mergeValues_def noChanges_def)
    ultimately show ?thesis using finished(4) by auto
  qed
  show ?thesis using one all by blast
qed

text \<open>
  The theorem of C4 at the destroyed form with funds and at the destroyed form without.
\<close>

theorem destroyed_stops_migration_witness:
  "destroyed goneFunded
   \<and> map migratableValues (val (migratingAssets (formValues goneFunded))) = [[5, 3]]
   \<and> notesLoop wallet fundedAsset 0 goneFunded = (Return, goneFunded)
   \<and> snd (migrateNotes wallet goneFunded) = setStatus MIGRATE goneFunded
   \<and> effects (snd (migrateNotes wallet goneFunded)) = effects goneFunded
   \<and> destroyed gone \<and> keyVault gone \<and> removeUser emptyWallet
   \<and> map migratableValues (val (migratingAssets (formValues gone))) = [[]]
   \<and> migrateNotes emptyWallet gone
       = (Returned, setStatus DONE (gone\<lparr>effects := effects gone @ [RemovedUser]\<rparr>))"
  using destroyed_stops_migration [of goneFunded 0 fundedAsset wallet]
    destroyed_stops_migration [of gone 0 emptyAsset emptyWallet]
  by (simp add: goneFunded_fields gone_fields gone_assets wallet_fields)

text \<open>
  C5 does not hold as stated. The form \<open>syncedEmpty\<close> is the one \<open>syncBalance\<close> leaves
  when the wallet has no note: no asset has a migratable value and the previous-generation
  user was removed. The session goes on with \<open>unlock\<close>, a \<open>changeValues\<close> that writes an
  asset with the migratable values 5 and 3 into \<open>migratingAssets\<close>, and \<open>submit\<close>: a
  transfer proof is created and sent.
\<close>

theorem changeValues_brings_funds_counterexample:
  "noFunds syncedEmpty
   \<and> status (formValues syncedEmpty) = CONFIRM \<and> formStatus syncedEmpty = LOCKED
   \<and> effects syncedEmpty = [AddedUser, RemovedUser]
   \<and> filter isProof (effects (session [Unlock, ChangeValues injected, Submit wallet] syncedEmpty))
       = [ProofCreated 0 7 1, ProofSent 0 7]"
proof -
  define st where "st = changeValues injected (unlock syncedEmpty)"
  have f: "val (migratingAssets (formValues st)) = [fundedAsset]"
    "messageType (migratingAssets (formValues st)) = None"
    "formStatus st = ACTIVE" "keyVault st" "\<not> destroyed st"
    "effects st = [AddedUser, RemovedUser]"
    by (simp_all add: st_def changeValues_def unlock_def locked_def injected_def form_defs
        syncedEmpty_fields)
  have n: "notesLoop wallet fundedAsset 0 (setStatus MIGRATE (validating st))
      = (Next, updateMigratingAssets 0 7
           ((setStatus MIGRATE (validating st))\<lparr>effects := effects (setStatus MIGRATE (validating st))
               @ [ProofCreated 0 7 1, ProofSent 0 7, TxRecorded 0 7]\<rparr>))"
    by (rule notesLoop_funded_completes)
      (simp_all add: setStatus_def validating_def form_defs f wallet_fields)
  have e: "effects (snd (MigrateForm_submit wallet st))
      = [AddedUser, RemovedUser, ProofCreated 0 7 1, ProofSent 0 7, TxRecorded 0 7, RemovedUser]"
    unfolding MigrateForm_submit_def migrateNotes_def
    using n
    by (simp add: f wallet_fields form_defs Let_def setStatus_def validating_def)
  have "session [Unlock, ChangeValues injected, Submit wallet] syncedEmpty
      = snd (MigrateForm_submit wallet st)"
    by (simp add: session_def st_def)
  then show ?thesis
    using e by (simp add: noFunds_def syncedEmpty_assets syncedEmpty_fields)
qed

text \<open>
  C5, amended: when the calls syncBalance makes resolve (removeUser is called only when no
  asset has a migratable value), it returns with the status CONFIRM and the form LOCKED, the
  assets being the synchronised ones. If no asset then has a migratable value, the
  previous-generation user was removed during the synchronisation, and no proof is created or
  sent by any later sequence of calls of init, changeProvider, changeValues, unlock, lock,
  submit and destroy in which no changeValues puts an asset with a migratable value into
  migratingAssets or sets the status to CONNECT; if some asset has one, the user was added
  and not removed.
\<close>

theorem syncBalance_skips_without_funds:
  assumes "keyVault st" "addUser sdk" "awaitUserSynchronised sdk"
    and "\<forall>a \<in> set (val (migratingAssets (formValues st))).
           getSpendableNotes sdk (assetId a) \<noteq> None \<and> getFee sdk (assetId a) \<noteq> None"
    and "removeUser sdk
         \<or> (\<exists>assets. syncedAssets sdk st = Some assets
               \<and> list_ex (\<lambda>a. length (migratableValues a) \<noteq> 0) assets)"
  shows "\<exists>st'. syncBalance sdk st = (Returned, st')
     \<and> status (formValues st') = CONFIRM \<and> formStatus st' = LOCKED
     \<and> syncedAssets sdk st = Some (val (migratingAssets (formValues st')))
     \<and> (noFunds st' \<longrightarrow>
           effects st' = effects st @ [AddedUser, RemovedUser]
           \<and> (\<forall>cs. list_all quiet cs \<longrightarrow>
                 filter isProof (effects (session cs st')) = filter isProof (effects st)))
     \<and> (\<not> noFunds st' \<longrightarrow> effects st' = effects st @ [AddedUser])"
proof -
  have "\<forall>a \<in> set (val (migratingAssets (formValues st))). syncAsset sdk a \<noteq> None"
    using assms(4) by (auto simp: syncAsset_def Let_def split: option.splits)
  from those_map_Some [OF this] obtain assets where
    t: "those (map (syncAsset sdk) (val (migratingAssets (formValues st)))) = Some assets"
    by blast
  have nr: "removeUser sdk \<or> list_ex (\<lambda>a. length (migratableValues a) \<noteq> 0) assets"
    using assms(5) t by (auto simp: syncedAssets_def)
  define st' where "st' = snd (syncBalance sdk st)"
  have r: "syncBalance sdk st = (Returned, st')"
    unfolding st'_def using assms(1-3) t nr
    by (cases "removeUser sdk") (simp_all add: syncBalance_def Let_def mergeValues_def noChanges_def)
  have f: "status (formValues st') = CONFIRM" "formStatus st' = LOCKED"
    "val (migratingAssets (formValues st')) = assets"
    "effects st' = effects st @ (if \<not> list_ex (\<lambda>a. length (migratableValues a) \<noteq> 0) assets
                                then [AddedUser, RemovedUser] else [AddedUser])"
    unfolding st'_def using assms(1-3) t nr
    by (cases "removeUser sdk";
        simp add: syncBalance_def Let_def mergeValues_def noChanges_def mergeInput_def)+
  have n: "noFunds st' \<longleftrightarrow> \<not> list_ex (\<lambda>a. length (migratableValues a) \<noteq> 0) assets"
    by (simp add: noFunds_def f(3))
  have e: "noFunds st' \<longrightarrow> (\<forall>cs. list_all quiet cs \<longrightarrow>
             filter isProof (effects (session cs st')) = filter isProof (effects st))"
  proof (intro impI allI)
    fix cs assume nf: "noFunds st'" and q: "list_all quiet cs"
    from session_noFunds [OF nf _ q] f(1)
    have "filter isProof (effects (session cs st')) = filter isProof (effects st')" by simp
    also have "\<dots> = filter isProof (effects st)" using f(4) n nf by simp
    finally show "filter isProof (effects (session cs st')) = filter isProof (effects st)" .
  qed
  have sa: "syncedAssets sdk st = Some (val (migratingAssets (formValues st')))"
    using t f(3) by (simp add: syncedAssets_def)
  show ?thesis
    using r f(1,2,4) n e sa by (intro exI [of _ st']) simp
qed

text \<open>
  The theorem of C5, amended, at a new form whose key vault is set: with the wallet without
  notes, followed by a session that unlocks the form, ticks \<open>submit\<close> with \<open>changeValues\<close>
  and submits twice; and with the wallet with two notes whose removeUser would reject.
\<close>

theorem syncBalance_skips_without_funds_witness:
  "keyVault unlockedForm \<and> addUser emptyWallet \<and> awaitUserSynchronised emptyWallet
   \<and> removeUser emptyWallet
   \<and> list_all quiet [Unlock, ChangeValues ticked, Submit wallet, Submit wallet]
   \<and> (\<exists>st'. syncBalance emptyWallet unlockedForm = (Returned, st')
         \<and> status (formValues st') = CONFIRM \<and> formStatus st' = LOCKED \<and> noFunds st'
         \<and> effects st' = [AddedUser, RemovedUser]
         \<and> filter isProof
              (effects (session [Unlock, ChangeValues ticked, Submit wallet, Submit wallet] st')) = [])
   \<and> \<not> removeUser (wallet\<lparr>removeUser := False\<rparr>)
   \<and> syncedAssets (wallet\<lparr>removeUser := False\<rparr>) unlockedForm = Some [fundedAsset]
   \<and> (\<exists>st'. syncBalance (wallet\<lparr>removeUser := False\<rparr>) unlockedForm = (Returned, st')
         \<and> status (formValues st') = CONFIRM \<and> formStatus st' = LOCKED \<and> \<not> noFunds st'
         \<and> effects st' = [AddedUser])"
proof -
  define busy where "busy = wallet\<lparr>removeUser := False\<rparr>"
  have k: "keyVault unlockedForm" "addUser emptyWallet" "awaitUserSynchronised emptyWallet"
    "removeUser emptyWallet" "addUser busy" "awaitUserSynchronised busy" "\<not> removeUser busy"
    by (simp_all add: unlockedForm_fields emptyWallet_def wallet_def busy_def)
  have q: "\<forall>a \<in> set (val (migratingAssets (formValues unlockedForm))).
           getSpendableNotes emptyWallet (assetId a) \<noteq> None \<and> getFee emptyWallet (assetId a) \<noteq> None"
    "\<forall>a \<in> set (val (migratingAssets (formValues unlockedForm))).
           getSpendableNotes busy (assetId a) \<noteq> None \<and> getFee busy (assetId a) \<noteq> None"
    by (simp_all add: unlockedForm_fields emptyWallet_def wallet_def busy_def noNotes_def
        twoNotes_def unitFee_def)
  have qu: "list_all quiet [Unlock, ChangeValues ticked, Submit wallet, Submit wallet]"
    by (simp add: keepsNoFunds_def ticked_def noChanges_def)
  have sb: "syncAsset busy = syncAsset wallet"
    by (rule ext) (simp add: syncAsset_def busy_def split: option.splits)
  have sa: "syncedAssets busy unlockedForm = Some [fundedAsset]"
    using syncedAssets_unlockedForm by (simp add: syncedAssets_def sb)
  have fu: "removeUser busy
         \<or> (\<exists>assets. syncedAssets busy unlockedForm = Some assets
               \<and> list_ex (\<lambda>a. length (migratableValues a) \<noteq> 0) assets)"
    using sa by simp
  from syncBalance_skips_without_funds [OF k(1,2,3) q(1)] k(4)
  obtain st' where a1: "syncBalance emptyWallet unlockedForm = (Returned, st')"
    "status (formValues st') = CONFIRM" "formStatus st' = LOCKED"
    "noFunds st' \<longrightarrow> effects st' = effects unlockedForm @ [AddedUser, RemovedUser]
           \<and> (\<forall>cs. list_all quiet cs \<longrightarrow>
                 filter isProof (effects (session cs st')) = filter isProof (effects unlockedForm))"
    by blast
  have nf1: "noFunds st'" using syncBalance_unlockedForm a1(1) by simp
  have a: "\<exists>st'. syncBalance emptyWallet unlockedForm = (Returned, st')
         \<and> status (formValues st') = CONFIRM \<and> formStatus st' = LOCKED \<and> noFunds st'
         \<and> effects st' = [AddedUser, RemovedUser]
         \<and> filter isProof
              (effects (session [Unlock, ChangeValues ticked, Submit wallet, Submit wallet] st')) = []"
    using a1 nf1 qu by (intro exI [of _ st']) (simp add: unlockedForm_fields)
  from syncBalance_skips_without_funds [OF k(1,5,6) q(2) fu]
  obtain st' where r: "syncBalance busy unlockedForm = (Returned, st')"
    "status (formValues st') = CONFIRM" "formStatus st' = LOCKED"
    "syncedAssets busy unlockedForm = Some (val (migratingAssets (formValues st')))"
    "\<not> noFunds st' \<longrightarrow> effects st' = effects unlockedForm @ [AddedUser]"
    by blast
  have v: "val (migratingAssets (formValues st')) = [fundedAsset]"
    using r(4) sa by simp
  have nf: "\<not> noFunds st'"
    by (simp add: noFunds_def v)
  have b: "\<exists>st'. syncBalance busy unlockedForm = (Returned, st')
         \<and> status (formValues st') = CONFIRM \<and> formStatus st' = LOCKED \<and> \<not> noFunds st'
         \<and> effects st' = [AddedUser]"
    using r(1,2,3,5) nf by (intro exI [of _ st']) (simp add: unlockedForm_fields)
  show ?thesis using k(1-4,7) qu a b sa unfolding busy_def by blast
qed

section \<open>Lemmas: count-down data\<close>

lemma expo_bounds:
  assumes "x \<noteq> 0"
  shows "2 powi expo x \<le> \<bar>x\<bar> \<and> \<bar>x\<bar> < 2 powi (expo x + 1)"
proof -
  obtain p q where pq: "quotient_of \<bar>x\<bar> = (p, q)" by (cases "quotient_of \<bar>x\<bar>")
  have q: "q > 0" using pq by (rule quotient_of_denom_pos)
  have x: "\<bar>x\<bar> = of_int p / of_int q" using pq by (rule quotient_of_div)
  have p: "p > 0"
  proof -
    have "0 < \<bar>x\<bar>" using assms by simp
    then have "0 < (of_int p :: rat) / of_int q" using x by simp
    then show ?thesis using q by (simp add: zero_less_divide_iff)
  qed
  define bp where "bp = floorlog 2 (nat p)"
  define bq where "bq = floorlog 2 (nat q)"
  define d where "d = int bp - int bq"
  have fp: "2 ^ (bp - 1) \<le> nat p" "nat p < 2 ^ bp"
    using floorlog_bounds [of "nat p" 2] p by (simp_all add: bp_def)
  have fq: "2 ^ (bq - 1) \<le> nat q" "nat q < 2 ^ bq"
    using floorlog_bounds [of "nat q" 2] q by (simp_all add: bq_def)
  have bp1: "bp \<ge> 1" using fp(2) p by (cases bp) auto
  have bq1: "bq \<ge> 1" using fq(2) q by (cases bq) auto
  have P: "(2::rat) ^ (bp - 1) \<le> of_int p" "(of_int p :: rat) < 2 ^ bp"
  proof -
    have "(of_nat (2 ^ (bp - 1)) :: rat) \<le> of_nat (nat p)" using fp(1) by (simp only: of_nat_le_iff)
    then show "(2::rat) ^ (bp - 1) \<le> of_int p" using p by simp
    have "(of_nat (nat p) :: rat) < of_nat (2 ^ bp)" using fp(2) by (simp only: of_nat_less_iff)
    then show "(of_int p :: rat) < 2 ^ bp" using p by simp
  qed
  have Q: "(2::rat) ^ (bq - 1) \<le> of_int q" "(of_int q :: rat) < 2 ^ bq"
  proof -
    have "(of_nat (2 ^ (bq - 1)) :: rat) \<le> of_nat (nat q)" using fq(1) by (simp only: of_nat_le_iff)
    then show "(2::rat) ^ (bq - 1) \<le> of_int q" using q by simp
    have "(of_nat (nat q) :: rat) < of_nat (2 ^ bq)" using fq(2) by (simp only: of_nat_less_iff)
    then show "(of_int q :: rat) < 2 ^ bq" using q by simp
  qed
  have qpos: "(0::rat) < of_int q" using q by simp
  have hi: "\<bar>x\<bar> < 2 powi (d + 1)"
  proof -
    have "of_int p < (2::rat) ^ bp" by (fact P(2))
    also have "\<dots> = 2 powi (d + 1) * 2 ^ (bq - 1)"
    proof -
      have "(2::rat) powi (d + 1) * 2 powi int (bq - 1) = 2 powi (d + 1 + int (bq - 1))"
        by (simp add: power_int_add)
      also have "d + 1 + int (bq - 1) = int bp" using bq1 by (simp add: d_def)
      finally show ?thesis by simp
    qed
    also have "\<dots> \<le> 2 powi (d + 1) * of_int q"
      using Q(1) by (simp add: mult_left_mono)
    finally have "of_int p / of_int q < (2::rat) powi (d + 1)"
      using qpos by (simp add: pos_divide_less_eq)
    then show ?thesis using x by simp
  qed
  have lo: "2 powi (d - 1) \<le> \<bar>x\<bar>"
  proof -
    have "(2::rat) powi (d - 1) * of_int q \<le> 2 powi (d - 1) * 2 ^ bq"
      using Q(2) by (simp add: mult_left_mono less_imp_le)
    also have "\<dots> = 2 ^ (bp - 1)"
    proof -
      have "(2::rat) powi (d - 1) * 2 powi int bq = 2 powi (d - 1 + int bq)"
        by (simp add: power_int_add)
      also have "d - 1 + int bq = int (bp - 1)" using bp1 by (simp add: d_def)
      finally show ?thesis by simp
    qed
    also have "\<dots> \<le> of_int p" by (fact P(1))
    finally have "(2::rat) powi (d - 1) \<le> of_int p / of_int q"
      using qpos by (simp add: pos_le_divide_eq)
    then show ?thesis using x by simp
  qed
  have e: "expo x = (if 2 powi d \<le> \<bar>x\<bar> then d else d - 1)"
    by (simp add: expo_def pq Let_def d_def bp_def bq_def)
  show ?thesis
  proof (cases "2 powi d \<le> \<bar>x\<bar>")
    case True
    then show ?thesis using e hi by simp
  next
    case False
    then show ?thesis using e lo by simp
  qed
qed

lemma expo_eqI:
  assumes "2 powi e \<le> \<bar>x\<bar>" "\<bar>x\<bar> < 2 powi (e + 1)"
  shows "expo x = e"
proof -
  have x: "x \<noteq> 0"
  proof
    assume "x = 0"
    with assms(1) have "(2::rat) powi e \<le> 0" by simp
    moreover have "(0::rat) < 2 powi e" by simp
    ultimately show False by linarith
  qed
  note b = expo_bounds [OF x]
  have "\<not> expo x < e"
  proof
    assume "expo x < e"
    then have "expo x + 1 \<le> e" by simp
    then have "(2::rat) powi (expo x + 1) \<le> 2 powi e" by (simp add: power_int_increasing)
    then show False using b assms(1) by simp
  qed
  moreover have "\<not> e < expo x"
  proof
    assume "e < expo x"
    then have "e + 1 \<le> expo x" by simp
    then have "(2::rat) powi (e + 1) \<le> 2 powi expo x" by (simp add: power_int_increasing)
    then show False using b assms(2) by simp
  qed
  ultimately show ?thesis by simp
qed

lemma expo_mono:
  assumes "0 < x" "x \<le> y"
  shows "expo x \<le> expo y"
proof (rule ccontr)
  assume "\<not> expo x \<le> expo y"
  then have "expo y + 1 \<le> expo x" by simp
  then have "(2::rat) powi (expo y + 1) \<le> 2 powi expo x" by (simp add: power_int_increasing)
  moreover have "\<bar>y\<bar> < 2 powi (expo y + 1)" "2 powi expo x \<le> \<bar>x\<bar>"
    using expo_bounds [of y] expo_bounds [of x] assms by auto
  ultimately show False using assms by simp
qed

lemma roundEven_le: "q \<le> of_int N \<Longrightarrow> roundEven q \<le> N"
proof -
  assume a: "q \<le> of_int N"
  then have f: "\<lfloor>q\<rfloor> \<le> N" by (simp add: floor_le_iff)
  show ?thesis
  proof (cases "\<lfloor>q\<rfloor> = N")
    case True
    then have "q - of_int \<lfloor>q\<rfloor> \<le> 0" using a by simp
    then have "q - of_int \<lfloor>q\<rfloor> < 1 / 2" by linarith
    then show ?thesis using True by (simp add: roundEven_def Let_def)
  next
    case False
    then have "\<lfloor>q\<rfloor> + 1 \<le> N" using f by simp
    then show ?thesis by (simp add: roundEven_def Let_def)
  qed
qed

lemma roundEven_ge: "of_int N \<le> q \<Longrightarrow> N \<le> roundEven q"
proof -
  assume "of_int N \<le> q"
  then have "N \<le> \<lfloor>q\<rfloor>" by (simp add: le_floor_iff)
  then show ?thesis by (simp add: roundEven_def Let_def)
qed

lemma roundEven_of_int [simp]: "roundEven (of_int N) = N"
  by (simp add: roundEven_def)

lemma rnd_0 [simp]: "rnd 0 = 0"
  by (simp add: rnd_def)

lemma ulp_pos [simp]: "0 < ulp x"
  by (simp add: ulp_def)

lemma rnd_nonneg: "0 \<le> x \<Longrightarrow> 0 \<le> rnd x"
proof -
  assume x: "0 \<le> x"
  then have "(of_int 0 :: rat) \<le> x / ulp x"
    using ulp_pos [of x] by (simp add: zero_le_divide_iff less_imp_le)
  then have "0 \<le> roundEven (x / ulp x)" by (rule roundEven_ge)
  then have "0 \<le> (of_int (roundEven (x / ulp x)) :: rat) * ulp x"
    using ulp_pos [of x] by (simp add: zero_le_mult_iff less_imp_le)
  then show ?thesis by (simp add: rnd_def)
qed

lemma rnd_le:
  assumes x: "0 < x" and xn: "x \<le> n" and n: "rnd n = n"
  shows "rnd x \<le> n"
proof -
  have npos: "0 < n" using x xn by simp
  define k where "k = max (expo n) (- 1022) - max (expo x) (- 1022)"
  have k: "0 \<le> k" using expo_mono [OF x xn] by (simp add: k_def)
  have u: "ulp n = ulp x * 2 powi k"
    by (simp add: ulp_def k_def power_int_add [symmetric])
  define N where "N = roundEven (n / ulp n)"
  have nN: "n = of_int N * ulp n" using n npos by (simp add: rnd_def N_def)
  have pk: "(2::rat) powi k = of_int (2 ^ nat k)" using k by (simp add: power_int_nonneg_exp)
  have "n = of_int (N * 2 ^ nat k) * ulp x"
    using nN u pk by (simp add: mult.assoc mult.commute)
  then have "x / ulp x \<le> of_int (N * 2 ^ nat k)"
    using xn by (simp add: pos_divide_le_eq)
  then have "roundEven (x / ulp x) \<le> N * 2 ^ nat k" by (rule roundEven_le)
  then have "(of_int (roundEven (x / ulp x)) :: rat) \<le> of_int (N * 2 ^ nat k)"
    by (simp only: of_int_le_iff)
  then have "of_int (roundEven (x / ulp x)) * ulp x \<le> of_int (N * 2 ^ nat k) * ulp x"
    by (simp add: mult_right_mono)
  then show ?thesis
    using x \<open>n = of_int (N * 2 ^ nat k) * ulp x\<close> by (simp add: rnd_def)
qed

lemma expo_1 [simp]: "expo 1 = 0"
  by (rule expo_eqI) simp_all

lemma rnd_pos:
  assumes "1 \<le> x"
  shows "0 < rnd x"
proof -
  have x: "0 < x" using assms by simp
  have e: "0 \<le> expo x" using expo_mono [of 1 x] assms by simp
  then have m: "max (expo x) (- 1022) = expo x" by simp
  have "2 powi expo x \<le> x" using expo_bounds [of x] x by simp
  moreover have "(2::rat) powi expo x = of_int (2 ^ 52) * ulp x"
    using power_int_add [of "2::rat" 52 "expo x - 52"] by (simp add: ulp_def m)
  ultimately have "of_int (2 ^ 52) \<le> x / ulp x"
    by (simp add: pos_le_divide_eq)
  then have "2 ^ 52 \<le> roundEven (x / ulp x)" by (rule roundEven_ge)
  then have "0 < roundEven (x / ulp x)" by simp
  then have "0 < (of_int (roundEven (x / ulp x)) :: rat) * ulp x"
    using ulp_pos [of x] by (simp add: zero_less_mult_iff)
  then show ?thesis using x by (simp add: rnd_def)
qed

lemma toNumber_not_NaN [simp]: "toNumber x \<noteq> NaN"
  by (simp add: toNumber_def Let_def)

lemma Number_not_NaN [simp]: "Number k \<noteq> NaN"
  by (simp add: Number_def)

lemma isDoubleD: "isDouble x \<Longrightarrow> rnd x = x \<and> x < 2 ^ 1024"
  by (auto simp: isDouble_def toNumber_def Let_def split: if_splits)

lemma Number_positive:
  assumes "0 < g" "Number g \<noteq> PosInfinity"
  shows "\<exists>r. Number g = Finite r \<and> 0 < r"
proof -
  have "(1::rat) \<le> of_int g" using assms(1) by simp
  then have "0 < rnd (of_int g)" by (rule rnd_pos)
  then show ?thesis
    using assms(2) by (auto simp: Number_def toNumber_def Let_def split: if_splits)
qed

lemma number_div_not_NaN:
  "x \<noteq> NaN \<Longrightarrow> 0 < r \<Longrightarrow> number_div x (Finite r) \<noteq> NaN"
  by (cases x) simp_all

lemma clamp_range:
  "f \<noteq> NaN \<Longrightarrow> \<exists>c. Math_min (Finite 1) (Math_max (Finite 0) f) = Finite c \<and> 0 \<le> c \<and> c \<le> 1"
  by (cases f) auto

lemma times_within:
  assumes n: "isDouble n" and c: "0 \<le> c" "c \<le> 1" and n0: "0 \<le> n"
  shows "\<exists>r. number_times (Finite n) (Finite c) = Finite r \<and> 0 \<le> r \<and> r \<le> n"
proof -
  note d = isDoubleD [OF n]
  have p: "0 \<le> n * c" "n * c \<le> n"
    using c n0 by (simp_all add: mult_left_le)
  have lo: "0 \<le> rnd (n * c)" using p(1) by (rule rnd_nonneg)
  have hi: "rnd (n * c) \<le> n"
  proof (cases "n * c = 0")
    case True
    then have "rnd (n * c) = 0" by (simp only: rnd_0)
    then show ?thesis using n0 by simp
  next
    case False
    then have "0 < n * c" using p(1) by (metis order_less_le)
    then show ?thesis using p(2) d by (intro rnd_le) simp_all
  qed
  have "rnd (n * c) < 2 ^ 1024" using hi d by simp
  moreover have "- (2 ^ 1024) < rnd (n * c)"
    using lo by (rule less_le_trans [rotated]) simp
  ultimately have "toNumber (n * c) = Finite (rnd (n * c))"
    by (simp add: toNumber_def Let_def not_le [symmetric])
  then show ?thesis using lo hi by simp
qed

lemma taken_within:
  assumes "0 < gasThreshold s" "Number (gasThreshold s) \<noteq> PosInfinity"
    and "isDouble (of_nat (numTxs s))"
  shows "\<exists>k. Math_floor (number_times (Finite (of_nat (numTxs s)))
            (Math_min (Finite 1) (Math_max (Finite 0)
               (number_div (Number (gasAccrued s)) (Number (gasThreshold s))))))
          = Finite (of_nat k) \<and> k \<le> numTxs s"
proof -
  from Number_positive [OF assms(1,2)] obtain g where
    g: "Number (gasThreshold s) = Finite g" "0 < g" by blast
  have "number_div (Number (gasAccrued s)) (Number (gasThreshold s)) \<noteq> NaN"
    unfolding g(1) using g(2) by (intro number_div_not_NaN) simp_all
  from clamp_range [OF this] obtain c where
    c: "Math_min (Finite 1) (Math_max (Finite 0)
          (number_div (Number (gasAccrued s)) (Number (gasThreshold s)))) = Finite c"
      "0 \<le> c" "c \<le> 1"
    by blast
  from times_within [OF assms(3) c(2,3)] obtain r where
    r: "number_times (Finite (of_nat (numTxs s))) (Finite c) = Finite r" "0 \<le> r"
      "r \<le> of_nat (numTxs s)"
    by auto
  have f0: "0 \<le> \<lfloor>r\<rfloor>" using r(2) by simp
  have f1: "\<lfloor>r\<rfloor> \<le> int (numTxs s)" using r(3) by (simp add: floor_le_iff)
  have "(of_int \<lfloor>r\<rfloor> :: rat) = of_nat (nat \<lfloor>r\<rfloor>)" using f0 by simp
  moreover have "nat \<lfloor>r\<rfloor> \<le> numTxs s" using f0 f1 by simp
  ultimately show ?thesis
    unfolding c(1) r(1) by (intro exI [of _ "nat \<lfloor>r\<rfloor>"]) simp
qed

lemma floor_rat_numeral: "\<lfloor>(numeral a :: rat) / numeral b\<rfloor> = numeral a div numeral b"
  by (metis floor_divide_of_int_eq of_int_numeral)

lemma expo_49th: "expo (1 / 49) = - 6"
  by (rule expo_eqI) simp_all

lemma rnd_49th: "rnd (1 / 49) = 5882252574524729 / 288230376151711744"
  by (simp add: rnd_def ulp_def expo_49th roundEven_def Let_def floor_rat_numeral)

lemma expo_49: "expo 49 = 5"
  by (rule expo_eqI) simp_all

lemma rnd_49: "rnd 49 = 49"
  by (simp add: rnd_def ulp_def expo_49 roundEven_def Let_def floor_rat_numeral)

lemma rnd_1: "rnd 1 = 1"
  by (simp add: rnd_def ulp_def roundEven_def Let_def floor_rat_numeral)

lemma expo_product: "expo (288230376151711721 / 288230376151711744) = - 1"
  by (rule expo_eqI) simp_all

lemma rnd_product:
  "rnd (288230376151711721 / 288230376151711744) = 9007199254740991 / 9007199254740992"
  by (simp add: rnd_def ulp_def expo_product roundEven_def Let_def floor_rat_numeral)

lemma nearlyEmpty_taken:
  "useCountDownData (Some nearlyEmpty) (Some 7) = Some \<lparr>totalSlots = 49, takenSlots = Finite 0\<rparr>"
proof -
  have n: "Number 1 = Finite 1" "Number 49 = Finite 49"
    by (simp_all add: Number_def toNumber_def Let_def rnd_1 rnd_49)
  have q: "toNumber (1 / 49) = Finite (5882252574524729 / 288230376151711744)"
    by (simp add: toNumber_def Let_def rnd_49th)
  have t: "toNumber (288230376151711721 / 288230376151711744)
        = Finite (9007199254740991 / 9007199254740992)"
    by (simp add: toNumber_def Let_def rnd_product)
  show ?thesis
    by (simp add: useCountDownData_def nearlyEmpty_def Let_def n q t floor_rat_numeral)
qed

lemma rnd_exact:
  assumes "x = of_int m * ulp x"
  shows "rnd x = x"
proof -
  have "x / ulp x = of_int m"
    using assms ulp_pos [of x] by (simp add: nonzero_divide_eq_eq less_imp_neq [THEN not_sym])
  then show ?thesis using assms by (simp add: rnd_def)
qed

lemma expo_pow: "expo (2 ^ k) = int k"
proof (rule expo_eqI)
  show "(2::rat) powi int k \<le> \<bar>2 ^ k\<bar>" by simp
  have "(2::rat) ^ k < 2 ^ Suc k" by simp
  moreover have "(2::rat) powi (int k + 1) = 2 ^ Suc k"
    by (simp add: power_int_add)
  ultimately show "\<bar>(2::rat) ^ k\<bar> < 2 powi (int k + 1)" by simp
qed

lemma isDouble_count:
  assumes "n \<le> 2 ^ 53"
  shows "isDouble (of_nat n)"
proof (cases "n = 0")
  case True
  then show ?thesis by (simp add: isDouble_def toNumber_def)
next
  case False
  define x :: rat where "x = of_nat n"
  have x1: "1 \<le> x" using False by (simp add: x_def)
  have xle: "x \<le> 2 ^ 53"
  proof -
    have "(of_nat n :: rat) \<le> of_nat (2 ^ 53)" using assms by (simp only: of_nat_le_iff)
    then show ?thesis by (simp add: x_def)
  qed
  have e0: "0 \<le> expo x" using expo_mono [of 1 x] x1 by simp
  have e53: "expo x \<le> 53"
    using expo_mono [of x "2 ^ 53"] x1 xle expo_pow [of 53] by simp
  have u: "ulp x = 2 powi (expo x - 52)" using e0 by (simp add: ulp_def)
  have "\<exists>m. x = of_int m * ulp x"
  proof (cases "expo x \<le> 52")
    case True
    have "(2::rat) powi (52 - expo x) * 2 powi (expo x - 52) = 1"
      using power_int_add [of "2::rat" "52 - expo x" "expo x - 52"] by simp
    moreover have "(2::rat) powi (52 - expo x) = of_int (2 ^ nat (52 - expo x))"
      using True by (simp add: power_int_nonneg_exp)
    ultimately have a: "(of_int (2 ^ nat (52 - expo x)) :: rat) * ulp x = 1"
      unfolding u by simp
    have "(of_int (int n * 2 ^ nat (52 - expo x)) :: rat) * ulp x
        = of_int (int n) * (of_int (2 ^ nat (52 - expo x)) * ulp x)"
      by (simp add: mult.assoc)
    also have "\<dots> = of_int (int n)" by (simp only: a mult_1_right)
    also have "\<dots> = x" by (simp add: x_def)
    finally have "x = of_int (int n * 2 ^ nat (52 - expo x)) * ulp x" by simp
    then show ?thesis by blast
  next
    case False
    then have e: "expo x = 53" using e53 by simp
    have "2 powi expo x \<le> x" using expo_bounds [of x] x1 by simp
    then have x53: "x = 2 ^ 53" using xle e by simp
    have "ulp x = 2" by (simp add: u e)
    then have "of_int (2 ^ 52) * ulp x = (2::rat) ^ 53" by simp
    then have "x = of_int (2 ^ 52) * ulp x" using x53 by (simp only:)
    then show ?thesis by blast
  qed
  then obtain m where "x = of_int m * ulp x" by blast
  then have "rnd x = x" by (rule rnd_exact)
  moreover have "x < 2 ^ 1024" using xle by (rule le_less_trans) simp
  moreover have "- (2 ^ 1024) < x"
  proof -
    have "- (2 ^ 1024) < (1::rat)" by simp
    then show ?thesis using x1 by (rule less_le_trans)
  qed
  ultimately show ?thesis
    by (simp add: isDouble_def toNumber_def Let_def x_def [symmetric] not_le [symmetric])
qed

section \<open>Theorems: count-down data\<close>

text \<open>
  C10 does not hold as stated. With a bridge status of 49 slots, gasAccrued 1 and
  gasThreshold 49, the quotient \<open>1 / 49\<close> is rounded to a double a little below a 49th, and
  its product with 49 is rounded to the double just below 1: takenSlots is 0, where the
  formula of the claim, \<open>floor(49 * clamp(1 / 49, 0, 1))\<close>, is 1.
\<close>

theorem exact_quotient_counterexample:
  "find (\<lambda>x. Some (bridgeCallData x) = Some 7) (bridgeStatus nearlyEmpty)
     = Some \<lparr>bridgeCallData = 7, numTxs = 49, gasThreshold = 49, gasAccrued = 1\<rparr>
   \<and> useCountDownData (Some nearlyEmpty) (Some 7) = Some \<lparr>totalSlots = 49, takenSlots = Finite 0\<rparr>
   \<and> \<lfloor>(49::rat) * min 1 (max 0 (1 / 49))\<rfloor> = 1"
  by (simp add: nearlyEmpty_taken floor_rat_numeral) (simp add: nearlyEmpty_def)

text \<open>
  C10, amended: for every rollup provider status, when no bridge status matches the given
  bridge call data, useCountDownData returns takenSlots = 0 and totalSlots =
  runtimeConfig.defaultDeFiBatchSize. When one matches, totalSlots is its numTxs and
  takenSlots is Math.floor of the double product of totalSlots and the clamped double
  quotient of Number(gasAccrued) by Number(gasThreshold), each operation rounding to the
  nearest double; this can be one less than the floor of the exact expression. Under the
  precondition that gasThreshold is positive and finite, and totalSlots being a count that
  a double holds (as every count up to 2^53 is), takenSlots is an integer with
  0 <= takenSlots <= totalSlots.
\<close>

theorem countdown_slots:
  "(find (\<lambda>x. Some (bridgeCallData x) = b) (bridgeStatus rp) = None \<longrightarrow>
      useCountDownData (Some rp) b
        = Some \<lparr>totalSlots = defaultDeFiBatchSize (runtimeConfig rp), takenSlots = Finite 0\<rparr>)
   \<and> (\<forall>s. find (\<lambda>x. Some (bridgeCallData x) = b) (bridgeStatus rp) = Some s \<longrightarrow>
        useCountDownData (Some rp) b
          = Some \<lparr>totalSlots = numTxs s,
                  takenSlots =
                    Math_floor (number_times (Finite (of_nat (numTxs s)))
                      (Math_min (Finite 1) (Math_max (Finite 0)
                         (number_div (Number (gasAccrued s)) (Number (gasThreshold s))))))\<rparr>
        \<and> (0 < gasThreshold s \<and> Number (gasThreshold s) \<noteq> PosInfinity
             \<and> isDouble (of_nat (numTxs s)) \<longrightarrow>
            (\<exists>r k. useCountDownData (Some rp) b = Some r
               \<and> takenSlots r = Finite (of_nat k) \<and> k \<le> totalSlots r)))"
proof (intro conjI impI allI)
  assume "find (\<lambda>x. Some (bridgeCallData x) = b) (bridgeStatus rp) = None"
  then show "useCountDownData (Some rp) b
        = Some \<lparr>totalSlots = defaultDeFiBatchSize (runtimeConfig rp), takenSlots = Finite 0\<rparr>"
    by (simp add: useCountDownData_def toNumber_def)
next
  fix s assume f: "find (\<lambda>x. Some (bridgeCallData x) = b) (bridgeStatus rp) = Some s"
  then show u: "useCountDownData (Some rp) b
          = Some \<lparr>totalSlots = numTxs s,
                  takenSlots =
                    Math_floor (number_times (Finite (of_nat (numTxs s)))
                      (Math_min (Finite 1) (Math_max (Finite 0)
                         (number_div (Number (gasAccrued s)) (Number (gasThreshold s))))))\<rparr>"
    by (simp add: useCountDownData_def Let_def)
  assume "0 < gasThreshold s \<and> Number (gasThreshold s) \<noteq> PosInfinity
             \<and> isDouble (of_nat (numTxs s))"
  then obtain k where "Math_floor (number_times (Finite (of_nat (numTxs s)))
            (Math_min (Finite 1) (Math_max (Finite 0)
               (number_div (Number (gasAccrued s)) (Number (gasThreshold s))))))
          = Finite (of_nat k)" "k \<le> numTxs s"
    using taken_within [of s] by blast
  then show "\<exists>r k. useCountDownData (Some rp) b = Some r
               \<and> takenSlots r = Finite (of_nat k) \<and> k \<le> totalSlots r"
    unfolding u by (intro exI [of _ "\<lparr>totalSlots = numTxs s, takenSlots = Finite (of_nat k)\<rparr>"] exI [of _ k]) simp
qed

text \<open>
  The theorem of C10, amended, at the provider status \<open>halfFull\<close>: with the bridge call
  data 8, which no bridge status has, and with 7, which its bridge status has.
\<close>

theorem countdown_slots_witness:
  "find (\<lambda>x. Some (bridgeCallData x) = Some 8) (bridgeStatus halfFull) = None
   \<and> useCountDownData (Some halfFull) (Some 8) = Some \<lparr>totalSlots = 10, takenSlots = Finite 0\<rparr>
   \<and> find (\<lambda>x. Some (bridgeCallData x) = Some 7) (bridgeStatus halfFull)
       = Some \<lparr>bridgeCallData = 7, numTxs = 8, gasThreshold = 2, gasAccrued = 1\<rparr>
   \<and> Number 2 \<noteq> PosInfinity \<and> isDouble 8
   \<and> (\<exists>r k. useCountDownData (Some halfFull) (Some 7) = Some r
          \<and> takenSlots r = Finite (of_nat k) \<and> k \<le> totalSlots r)"
proof -
  have f8: "find (\<lambda>x. Some (bridgeCallData x) = Some 8) (bridgeStatus halfFull) = None"
    by (simp add: halfFull_def)
  have f7: "find (\<lambda>x. Some (bridgeCallData x) = Some 7) (bridgeStatus halfFull)
       = Some \<lparr>bridgeCallData = 7, numTxs = 8, gasThreshold = 2, gasAccrued = 1\<rparr>"
    by (simp add: halfFull_def)
  have d: "isDouble 8" using isDouble_count [of 8] by simp
  have "isDouble (of_nat 2)" by (rule isDouble_count) simp
  then have n2: "Number 2 \<noteq> PosInfinity" by (simp add: Number_def isDouble_def)
  note t = countdown_slots [of "Some 8" halfFull] countdown_slots [of "Some 7" halfFull]
  from t(1) f8 have a: "useCountDownData (Some halfFull) (Some 8)
      = Some \<lparr>totalSlots = 10, takenSlots = Finite 0\<rparr>"
    by (simp add: halfFull_def)
  from t(2) [THEN conjunct2, rule_format, OF f7, THEN conjunct2] n2 d
  have b: "\<exists>r k. useCountDownData (Some halfFull) (Some 7) = Some r
          \<and> takenSlots r = Finite (of_nat k) \<and> k \<le> totalSlots r"
    by simp
  show ?thesis using f8 a f7 n2 d b by blast
qed

end
